theory Spec2Isabelle
  imports Complex_Main
begin

section \<open>Python values and exceptions\<close>

text \<open>
  The exceptions the modelled functions can raise. Every \<open>raise\<close> of the source, and every
  exception a builtin raises on the path, is a value of this type on the left of a sum.
\<close>

datatype py_error =
    KeyError
  | TypeError
  | AttributeError
  | ValueError
  | ZeroDivisionError
  | JSONDecodeError
  | RequestTimeout
  | HTTPError nat
  | RequestException
  | RuntimeError
  | RecursionError
  | AllRetriesFailed "py_error option"

text \<open>
  The values \<open>json.loads\<close> produces: \<open>None\<close>, booleans, numbers, strings, lists and
  dictionaries. A dictionary is an association list in insertion order; a key is looked up
  with \<open>map_of\<close>.
\<close>

datatype json =
    JNull
  | JBool bool
  | JNum real
  | JStr string
  | JArr "json list"
  | JObj "(string \<times> json) list"

text \<open>Python truthiness, as used by \<open>if x\<close> and \<open>x if c else y\<close>.\<close>

fun truthy :: "json \<Rightarrow> bool" where
  "truthy JNull = False"
| "truthy (JBool b) = b"
| "truthy (JNum n) = (n \<noteq> 0)"
| "truthy (JStr s) = (s \<noteq> [])"
| "truthy (JArr xs) = (xs \<noteq> [])"
| "truthy (JObj kvs) = (kvs \<noteq> [])"

text \<open>\<open>d[k]\<close> on a dictionary: \<open>KeyError\<close> when the key is absent.\<close>

definition dict_get :: "(string \<times> json) list \<Rightarrow> string \<Rightarrow> py_error + json" where
  "dict_get d k = (case map_of d k of None \<Rightarrow> Inl KeyError | Some v \<Rightarrow> Inr v)"

text \<open>
  Sequencing of statements that may raise: the first exception ends the computation.
\<close>

definition bind_err :: "py_error + 'a \<Rightarrow> ('a \<Rightarrow> py_error + 'b) \<Rightarrow> py_error + 'b" where
  "bind_err m f = (case m of Inl e \<Rightarrow> Inl e | Inr x \<Rightarrow> f x)"

text \<open>\<open>xs.index(x)\<close>: the first position of \<open>x\<close>, \<open>None\<close> where Python raises.\<close>

fun index_of :: "'a list \<Rightarrow> 'a \<Rightarrow> nat option" where
  "index_of [] x = None"
| "index_of (y # ys) x = (if y = x then Some 0 else map_option Suc (index_of ys x))"

text \<open>
  \<open>str.upper\<close> on the ASCII letters; every other character is left as it is. The result
  is only ever compared with the names of the severity levels, which are ASCII capitals.
  Below 256 the only other code point that \<open>str.upper\<close> turns into ASCII capitals is
  \<open>0xDF\<close>, which becomes \<open>SS\<close>, and no name contains \<open>SS\<close>: so the comparison comes out as
  in Python for every string of such code points.
\<close>

definition upper_char :: "char \<Rightarrow> char" where
  "upper_char c =
     (case map_of (zip ''abcdefghijklmnopqrstuvwxyz'' ''ABCDEFGHIJKLMNOPQRSTUVWXYZ'') c of
        None \<Rightarrow> c
      | Some u \<Rightarrow> u)"

definition upper :: "string \<Rightarrow> string" where
  "upper s = map upper_char s"

section \<open>Severity levels and the damage scenario record\<close>

text \<open>\<open>tara_objs/damage_scenario_impact_level.py\<close>: the enum and its integer values.\<close>

datatype SeverityLevel = NEGLIGIBLE | MODERATE | MAJOR | SEVERE

fun severity_value :: "SeverityLevel \<Rightarrow> nat" where
  "severity_value NEGLIGIBLE = 0"
| "severity_value MODERATE = 1"
| "severity_value MAJOR = 2"
| "severity_value SEVERE = 3"

fun severity_name :: "SeverityLevel \<Rightarrow> string" where
  "severity_name NEGLIGIBLE = ''NEGLIGIBLE''"
| "severity_name MODERATE = ''MODERATE''"
| "severity_name MAJOR = ''MAJOR''"
| "severity_name SEVERE = ''SEVERE''"

text \<open>\<open>SeverityLevel(n)\<close>: the member with value \<open>n\<close>, \<open>ValueError\<close> when there is none.\<close>

definition SeverityLevel_of_value :: "nat \<Rightarrow> py_error + SeverityLevel" where
  "SeverityLevel_of_value n =
     (if n = 0 then Inr NEGLIGIBLE
      else if n = 1 then Inr MODERATE
      else if n = 2 then Inr MAJOR
      else if n = 3 then Inr SEVERE
      else Inl ValueError)"

text \<open>
  \<open>SeverityLevel.get\<close>: the members are tried in definition order against the upper-cased
  argument; the default is \<open>NEGLIGIBLE\<close>. A non-string argument has no \<open>upper\<close>.
\<close>

fun get_member :: "SeverityLevel list \<Rightarrow> string \<Rightarrow> SeverityLevel" where
  "get_member [] s = NEGLIGIBLE"
| "get_member (m # ms) s = (if severity_name m = upper s then m else get_member ms s)"

definition SeverityLevel_get :: "json \<Rightarrow> py_error + SeverityLevel" where
  "SeverityLevel_get severity =
     (case severity of
        JStr s \<Rightarrow> Inr (get_member [NEGLIGIBLE, MODERATE, MAJOR, SEVERE] s)
      | _ \<Rightarrow> Inl AttributeError)"

record DamageScenarioImpactLevel =
  damage_scenario_sn :: string
  damage_scenario :: string
  safety :: SeverityLevel
  financial :: SeverityLevel
  operational :: SeverityLevel
  privacy :: SeverityLevel
  impact_level :: SeverityLevel

text \<open>
  \<open>_calculate_impact_level\<close> reads the four dimensions only, so it is given them; the
  constructor calls it before \<open>impact_level\<close> exists.
\<close>

definition calculate_impact_level ::
  "SeverityLevel \<Rightarrow> SeverityLevel \<Rightarrow> SeverityLevel \<Rightarrow> SeverityLevel \<Rightarrow> py_error + SeverityLevel"
where
  "calculate_impact_level sa fi op pr =
     SeverityLevel_of_value
       (max (max (max (severity_value sa) (severity_value fi)) (severity_value op))
            (severity_value pr))"

definition DamageScenarioImpactLevel_init ::
  "string \<Rightarrow> string \<Rightarrow> SeverityLevel \<Rightarrow> SeverityLevel \<Rightarrow> SeverityLevel \<Rightarrow> SeverityLevel
     \<Rightarrow> py_error + DamageScenarioImpactLevel"
where
  "DamageScenarioImpactLevel_init sn ds sa fi op pr =
     (case calculate_impact_level sa fi op pr of
        Inl e \<Rightarrow> Inl e
      | Inr lvl \<Rightarrow>
          Inr \<lparr>damage_scenario_sn = sn, damage_scenario = ds, safety = sa, financial = fi,
               operational = op, privacy = pr, impact_level = lvl\<rparr>)"

definition set_impact_levels ::
  "SeverityLevel option \<Rightarrow> SeverityLevel option \<Rightarrow> SeverityLevel option \<Rightarrow> SeverityLevel option
     \<Rightarrow> DamageScenarioImpactLevel \<Rightarrow> py_error + DamageScenarioImpactLevel"
where
  "set_impact_levels sa fi op pr self =
     (let s1 = (case sa of None \<Rightarrow> self | Some v \<Rightarrow> self\<lparr>safety := v\<rparr>);
          s2 = (case fi of None \<Rightarrow> s1 | Some v \<Rightarrow> s1\<lparr>financial := v\<rparr>);
          s3 = (case op of None \<Rightarrow> s2 | Some v \<Rightarrow> s2\<lparr>operational := v\<rparr>);
          s4 = (case pr of None \<Rightarrow> s3 | Some v \<Rightarrow> s3\<lparr>privacy := v\<rparr>)
      in case calculate_impact_level (safety s4) (financial s4) (operational s4) (privacy s4) of
           Inl e \<Rightarrow> Inl e
         | Inr lvl \<Rightarrow> Inr (s4\<lparr>impact_level := lvl\<rparr>))"

text \<open>
  One keyword argument of \<open>set_impact_levels_by_strings\<close>:
  \<open>SeverityLevel.get(attributes[k]) if attributes[k] else None\<close>.
\<close>

definition level_argument :: "(string \<times> json) list \<Rightarrow> string \<Rightarrow> py_error + SeverityLevel option" where
  "level_argument attributes k =
     (case dict_get attributes k of
        Inl e \<Rightarrow> Inl e
      | Inr v \<Rightarrow>
          if truthy v then (case SeverityLevel_get v of Inl e \<Rightarrow> Inl e | Inr l \<Rightarrow> Inr (Some l))
          else Inr None)"

text \<open>
  The four arguments are evaluated in order before \<open>set_impact_levels\<close> is entered, so an
  exception among them leaves the object as it was; afterwards the overall level is
  computed once more.
\<close>

definition set_impact_levels_by_strings ::
  "(string \<times> json) list \<Rightarrow> DamageScenarioImpactLevel \<Rightarrow> py_error + DamageScenarioImpactLevel"
where
  "set_impact_levels_by_strings attributes self =
     bind_err (level_argument attributes ''safety'') (\<lambda>sa.
     bind_err (level_argument attributes ''financial'') (\<lambda>fi.
     bind_err (level_argument attributes ''operational'') (\<lambda>op.
     bind_err (level_argument attributes ''privacy'') (\<lambda>pr.
     bind_err (set_impact_levels sa fi op pr self) (\<lambda>s.
     bind_err (calculate_impact_level (safety s) (financial s) (operational s) (privacy s))
       (\<lambda>lvl. Inr (s\<lparr>impact_level := lvl\<rparr>)))))))"

text \<open>
  The invariant: the overall level is the largest of the four dimensions, and so no
  dimension is above it.
\<close>

definition impact_is_max :: "DamageScenarioImpactLevel \<Rightarrow> bool" where
  "impact_is_max d \<longleftrightarrow>
     severity_value (impact_level d) =
       Max {severity_value (safety d), severity_value (financial d),
            severity_value (operational d), severity_value (privacy d)}"

definition no_dimension_above :: "DamageScenarioImpactLevel \<Rightarrow> bool" where
  "no_dimension_above d \<longleftrightarrow>
     severity_value (safety d) \<le> severity_value (impact_level d)
     \<and> severity_value (financial d) \<le> severity_value (impact_level d)
     \<and> severity_value (operational d) \<le> severity_value (impact_level d)
     \<and> severity_value (privacy d) \<le> severity_value (impact_level d)"

definition sample_scenario :: DamageScenarioImpactLevel where
  "sample_scenario =
     \<lparr>damage_scenario_sn = ''damage_scenario_1'', damage_scenario = ''brake command spoofed'',
      safety = MODERATE, financial = NEGLIGIBLE, operational = NEGLIGIBLE, privacy = MAJOR,
      impact_level = MAJOR\<rparr>"

section \<open>The two risk matrices\<close>

text \<open>\<open>tara_objs/threat_scenario_attack_feasibility.py\<close>: the rating enum and its values.\<close>

datatype AttackFeasibilityRating = VERY_LOW | LOW | MEDIUM | HIGH

fun rating_value :: "AttackFeasibilityRating \<Rightarrow> string" where
  "rating_value VERY_LOW = ''verylow''"
| "rating_value LOW = ''low''"
| "rating_value MEDIUM = ''medium''"
| "rating_value HIGH = ''high''"

text \<open>
  \<open>AssetTaraInfo.calculate_overall_risk\<close>, for an artifact that has both a damage scenario
  and a threat scenario: the value written to \<open>risk_value\<close>, \<open>None\<close> when nothing is
  written (no rating, or a rating that is not a key of the table). The table is keyed by
  the rating's string and indexed by the level's integer.
\<close>

definition calculate_overall_risk ::
  "SeverityLevel \<Rightarrow> AttackFeasibilityRating option \<Rightarrow> nat option"
where
  "calculate_overall_risk impact attack_feasibility =
     (let risk_matrix =
            [(''verylow'', [1, 1, 1, 2]),
             (''low'', [1, 2, 2, 3]),
             (''medium'', [1, 2, 3, 4]),
             (''high'', [1, 3, 4, 5 :: nat])]
      in case attack_feasibility of
           None \<Rightarrow> None
         | Some r \<Rightarrow>
             (case map_of risk_matrix (rating_value r) of
                None \<Rightarrow> None
              | Some row \<Rightarrow> Some (row ! severity_value impact)))"

text \<open>
  \<open>AssetThreatRiskTreatmentDecision.calculate_risk_value\<close>: the value written to
  \<open>risk_value\<close>. Without a rating the method calls
  \<open>calculate_attack_feasibility_rating\<close> with an argument it does not take, which is a
  \<open>TypeError\<close>. Both indices default to 0 and are found with \<open>list.index\<close>.
\<close>

definition calculate_risk_value ::
  "SeverityLevel \<Rightarrow> AttackFeasibilityRating option \<Rightarrow> py_error + nat"
where
  "calculate_risk_value impact feasibility_rating =
     (case feasibility_rating of
        None \<Rightarrow> Inl TypeError
      | Some r \<Rightarrow>
          (let risk_matrix = [[2, 3, 4, 5], [1, 2, 3, 4], [1, 2, 2, 3], [1, 1, 1, 1 :: nat]];
               impact_values = [SEVERE, MAJOR, MODERATE, NEGLIGIBLE];
               impact_index = (case index_of impact_values impact of None \<Rightarrow> 0 | Some i \<Rightarrow> i);
               feasibility_values = [''verylow'', ''low'', ''medium'', ''high''];
               feasibility_index =
                 (case index_of feasibility_values (rating_value r) of None \<Rightarrow> 0 | Some j \<Rightarrow> j)
           in Inr (risk_matrix ! impact_index ! feasibility_index)))"

section \<open>The token bucket\<close>

text \<open>
  \<open>ai_assistant/base_ai.py\<close>: the rate limiter's fields of \<open>BaseAIAssistant\<close>. The
  clock is an input: every call that reads \<open>time.time()\<close> is given the reading.
\<close>

record token_bucket =
  max_burst :: real
  tokens :: real
  last_refill_time :: real
  token_refill_rate :: real

definition bucket_init :: "real \<Rightarrow> real \<Rightarrow> real \<Rightarrow> token_bucket" where
  "bucket_init rate_limit_per_minute burst now =
     \<lparr>max_burst = burst, tokens = burst, last_refill_time = now,
      token_refill_rate = rate_limit_per_minute / 60\<rparr>"

definition refill_tokens :: "real \<Rightarrow> token_bucket \<Rightarrow> token_bucket" where
  "refill_tokens current_time self =
     (let elapsed = current_time - last_refill_time self;
          new_tokens = elapsed * token_refill_rate self
      in if new_tokens > 0
         then self\<lparr>tokens := min (max_burst self) (tokens self + new_tokens),
                   last_refill_time := current_time\<rparr>
         else self)"

text \<open>
  One pass through the body of the \<open>while True\<close> of \<open>_acquire_token\<close>: refill, then either
  debit and return, or compute the wait. The division raises when the rate is zero and
  \<open>time.sleep\<close> raises on a negative length.
\<close>

datatype acquire_outcome = Acquired | MustWait real | Raised py_error

definition acquire_attempt :: "real \<Rightarrow> int \<Rightarrow> token_bucket \<Rightarrow> acquire_outcome \<times> token_bucket" where
  "acquire_attempt current_time required_tokens self =
     (let s = refill_tokens current_time self
      in if tokens s \<ge> of_int required_tokens
         then (Acquired, s\<lparr>tokens := tokens s - of_int required_tokens\<rparr>)
         else if token_refill_rate s = 0 then (Raised ZeroDivisionError, s)
         else (let wait_time = (of_int required_tokens - tokens s) / token_refill_rate s
               in if wait_time < 0 then (Raised ValueError, s) else (MustWait wait_time, s)))"

text \<open>
  \<open>_acquire_token\<close> over the clock readings of its passes. \<open>None\<close> is a call that is still
  waiting when the readings end.
\<close>

fun acquire_token :: "real list \<Rightarrow> int \<Rightarrow> token_bucket \<Rightarrow> (py_error + bool) option \<times> token_bucket" where
  "acquire_token [] required_tokens self = (None, self)"
| "acquire_token (now # later) required_tokens self =
     (case acquire_attempt now required_tokens self of
        (Acquired, s) \<Rightarrow> (Some (Inr True), s)
      | (MustWait w, s) \<Rightarrow> acquire_token later required_tokens s
      | (Raised e, s) \<Rightarrow> (Some (Inl e), s))"

text \<open>A history of the bucket: refills and acquisitions in any order.\<close>

datatype bucket_op = Refill real | Acquire "real list" int

fun requested :: "bucket_op \<Rightarrow> int" where
  "requested (Refill t) = 0"
| "requested (Acquire clock n) = n"

fun apply_bucket_op :: "bucket_op \<Rightarrow> token_bucket \<Rightarrow> token_bucket" where
  "apply_bucket_op (Refill t) s = refill_tokens t s"
| "apply_bucket_op (Acquire clock n) s = snd (acquire_token clock n s)"

fun run_bucket_ops :: "bucket_op list \<Rightarrow> token_bucket \<Rightarrow> token_bucket" where
  "run_bucket_ops [] s = s"
| "run_bucket_ops (x # xs) s = run_bucket_ops xs (apply_bucket_op x s)"

definition bucket_ok :: "token_bucket \<Rightarrow> bool" where
  "bucket_ok s \<longleftrightarrow> 0 \<le> tokens s \<and> tokens s \<le> max_burst s"

section \<open>Response validation\<close>

text \<open>
  Builtins of Python on parsed JSON values. A character of a string stands for a code
  point below 256; text with other code points is outside the model. \<open>str.strip\<close>
  removes, at both ends, the characters for which \<open>str.isspace\<close> holds: below 256 these
  are tab, line feed, vertical tab, form feed, carriage return, the four separators
  \<open>0x1C\<close> to \<open>0x1F\<close>, the space, the next-line control \<open>0x85\<close> and the no-break space
  \<open>0xA0\<close>.
\<close>

definition is_space :: "char \<Rightarrow> bool" where
  "is_space c \<longleftrightarrow>
     c \<in> set [CHR 0x09, CHR 0x0A, CHR 0x0B, CHR 0x0C, CHR 0x0D,
              CHR 0x1C, CHR 0x1D, CHR 0x1E, CHR 0x1F, CHR 0x20, CHR 0x85, CHR 0xA0]"

definition strip :: "string \<Rightarrow> string" where
  "strip s = rev (dropWhile is_space (rev (dropWhile is_space s)))"

text \<open>\<open>len(x)\<close>: defined on strings, lists and dictionaries.\<close>

fun py_len :: "json \<Rightarrow> py_error + nat" where
  "py_len (JStr s) = Inr (length s)"
| "py_len (JArr xs) = Inr (length xs)"
| "py_len (JObj kvs) = Inr (length kvs)"
| "py_len v = Inl TypeError"

text \<open>
  \<open>for item in x\<close>: a list gives its elements, a dictionary its keys and a string its
  characters as strings of length one.
\<close>

fun py_iter :: "json \<Rightarrow> py_error + json list" where
  "py_iter (JArr xs) = Inr xs"
| "py_iter (JObj kvs) = Inr (map (\<lambda>kv. JStr (fst kv)) kvs)"
| "py_iter (JStr s) = Inr (map (\<lambda>c. JStr [c]) s)"
| "py_iter v = Inl TypeError"

fun substring :: "string \<Rightarrow> string \<Rightarrow> bool" where
  "substring sub [] = (sub = [])"
| "substring sub (c # cs) = (take (length sub) (c # cs) = sub \<or> substring sub cs)"

text \<open>
  \<open>k in x\<close> for a string \<open>k\<close>: key membership in a dictionary, element equality in a
  list, substring test in a string.
\<close>

fun py_contains :: "json \<Rightarrow> string \<Rightarrow> py_error + bool" where
  "py_contains (JObj kvs) k = Inr (map_of kvs k \<noteq> None)"
| "py_contains (JArr xs) k = Inr (JStr k \<in> set xs)"
| "py_contains (JStr s) k = Inr (substring k s)"
| "py_contains v k = Inl TypeError"

text \<open>
  \<open>BaseAIAssistant._validate_response_format\<close>. The four keys below are the ones whose
  value is checked as a list of items; the test is on the name of the key, not on the shape
  of the template's value.
\<close>

definition list_keys :: "string list" where
  "list_keys =
     [''possible_damage_scenario_list'', ''possible_threat_scenario_list'',
      ''possible_attack_path_list'', ''asset_cybersecurity_requirement_list'']"

text \<open>
  The loops return \<open>Inr False\<close> where the source returns \<open>False\<close>, \<open>Inr True\<close> where the
  loop runs to its end, and \<open>Inl\<close> where a builtin raises.
  First \<open>for sub_key, sub_content in item.items()\<close>, with \<open>sub_content.strip()\<close>:
\<close>

fun check_item_fields :: "(string \<times> json) list \<Rightarrow> py_error + bool" where
  "check_item_fields [] = Inr True"
| "check_item_fields ((sub_key, JStr s) # rest) =
     (if strip s = [] then Inr False else check_item_fields rest)"
| "check_item_fields ((sub_key, v) # rest) = Inl AttributeError"

text \<open>\<open>for item in response_json[key]\<close>, with \<open>item.items()\<close>:\<close>

fun check_items :: "json list \<Rightarrow> py_error + bool" where
  "check_items [] = Inr True"
| "check_items (JObj flds # rest) =
     bind_err (check_item_fields flds) (\<lambda>ok. if ok then check_items rest else Inr False)"
| "check_items (v # rest) = Inl AttributeError"

definition check_list_key :: "(string \<times> json) list \<Rightarrow> string \<Rightarrow> py_error + bool" where
  "check_list_key response_json key =
     (case map_of response_json key of
        None \<Rightarrow> Inr False
      | Some v \<Rightarrow>
          bind_err (py_len v) (\<lambda>n.
            if n = 0 then Inr False else bind_err (py_iter v) check_items))"

text \<open>
  \<open>for sub_key, sub_format_value in format_value.items()\<close>, with
  \<open>sub_key not in response_json[key]\<close>; the subscript is evaluated on every pass.
\<close>

fun check_sub_keys :: "(string \<times> json) list \<Rightarrow> string \<Rightarrow> (string \<times> json) list \<Rightarrow> py_error + bool" where
  "check_sub_keys response_json key [] = Inr True"
| "check_sub_keys response_json key ((sub_key, sub_format_value) # rest) =
     bind_err (dict_get response_json key) (\<lambda>w.
       bind_err (py_contains w sub_key) (\<lambda>present.
         if present then check_sub_keys response_json key rest else Inr False))"

definition check_key :: "(string \<times> json) list \<Rightarrow> string \<Rightarrow> json \<Rightarrow> py_error + bool" where
  "check_key response_json key format_value =
     (if key \<in> set list_keys then check_list_key response_json key
      else case format_value of
             JObj sub \<Rightarrow> check_sub_keys response_json key sub
           | _ \<Rightarrow> Inr (map_of response_json key \<noteq> None))"

text \<open>\<open>for key, format_value in format_json.items()\<close>:\<close>

fun check_keys :: "(string \<times> json) list \<Rightarrow> (string \<times> json) list \<Rightarrow> py_error + bool" where
  "check_keys response_json [] = Inr True"
| "check_keys response_json ((key, format_value) # rest) =
     bind_err (check_key response_json key format_value) (\<lambda>ok.
       if ok then check_keys response_json rest else Inr False)"

text \<open>
  The whole method. \<open>json.loads\<close> is the library's: it is a parameter, \<open>None\<close> where it
  raises \<open>JSONDecodeError\<close>. A template that is not a dictionary has no \<open>items\<close>. The
  outer \<open>except\<close> turns every exception into \<open>False\<close>.
\<close>

definition validate_response_format ::
  "(string \<Rightarrow> json option) \<Rightarrow> (string \<times> json) list \<Rightarrow> string \<Rightarrow> bool"
where
  "validate_response_format loads response_json format_text =
     (case loads format_text of
        None \<Rightarrow> False
      | Some (JObj format_json) \<Rightarrow>
          (case check_keys response_json format_json of Inl e \<Rightarrow> False | Inr ok \<Rightarrow> ok)
      | Some v \<Rightarrow> False)"

text \<open>What the validation of a list key guarantees about the payload's value.\<close>

definition nonblank_fields :: "json \<Rightarrow> bool" where
  "nonblank_fields item \<longleftrightarrow>
     (\<exists>flds. item = JObj flds
        \<and> (\<forall>kv \<in> set flds. \<exists>s. snd kv = JStr s \<and> strip s \<noteq> []))"

definition nonempty_item_list :: "(string \<times> json) list \<Rightarrow> string \<Rightarrow> bool" where
  "nonempty_item_list response_json key \<longleftrightarrow>
     (\<exists>items. map_of response_json key = Some (JArr items) \<and> items \<noteq> []
        \<and> (\<forall>item \<in> set items. nonblank_fields item))"

text \<open>The templates and payloads of the examples.\<close>

definition template_of :: "string \<Rightarrow> json" where
  "template_of key = JObj [(key, JArr [JObj [(''a'', JStr ''x'')]])]"

definition payload_blank :: "string \<Rightarrow> (string \<times> json) list" where
  "payload_blank key = [(key, JArr [JObj [(''a'', JStr ''1'')], JObj [(''a'', JStr [])]])]"

definition payload_good :: "string \<Rightarrow> (string \<times> json) list" where
  "payload_good key = [(key, JArr [JObj [(''a'', JStr ''1'')]])]"

definition payload_missing :: "(string \<times> json) list" where
  "payload_missing = [(''other'', JStr ''1'')]"

section \<open>Parsing the response text\<close>

text \<open>
  \<open>str.find\<close> and \<open>str.rfind\<close> of a single character: the first and the last position,
  \<open>-1\<close> when there is none. \<open>text[start:end]\<close> for indices that are not negative.
\<close>

definition py_find :: "string \<Rightarrow> char \<Rightarrow> int" where
  "py_find text c = (case index_of text c of None \<Rightarrow> - 1 | Some i \<Rightarrow> int i)"

definition py_rfind :: "string \<Rightarrow> char \<Rightarrow> int" where
  "py_rfind text c =
     (case index_of (rev text) c of
        None \<Rightarrow> - 1
      | Some i \<Rightarrow> int (length text) - 1 - int i)"

definition py_slice :: "string \<Rightarrow> int \<Rightarrow> int \<Rightarrow> string" where
  "py_slice text start endp = drop (nat start) (take (nat endp) text)"

text \<open>
  The salvage step of \<open>_validate_json_response\<close>: the text from the first opening brace
  to the last closing brace, when both exist.
\<close>

definition salvage :: "string \<Rightarrow> string option" where
  "salvage response_text =
     (let start = py_find response_text CHR ''{'';
          endp = py_rfind response_text CHR ''}'' + 1
      in if start \<noteq> - 1 \<and> endp \<noteq> 0 then Some (py_slice response_text start endp) else None)"

text \<open>
  \<open>BaseAIAssistant._validate_json_response\<close>. \<open>json.loads\<close> is the library's and is a
  parameter: it returns the parsed value, or raises \<open>JSONDecodeError\<close> on a text that is
  not JSON, or raises something else (\<open>RecursionError\<close> on nesting deeper than the
  interpreter allows, a plain \<open>ValueError\<close> on an integer literal with more digits than
  \<open>int\<close> accepts). The outer handler is \<open>except json.JSONDecodeError\<close> only: any other
  exception of the first call leaves the method unchanged and the salvage is not tried.
  The inner \<open>except Exception: pass\<close> catches whatever the second call raises and falls
  through to the final \<open>raise ValueError\<close>.
\<close>

definition validate_json_response ::
  "(string \<Rightarrow> py_error + json) \<Rightarrow> string \<Rightarrow> py_error + json"
where
  "validate_json_response loads response_text =
     (case loads response_text of
        Inr parsed \<Rightarrow> Inr parsed
      | Inl e \<Rightarrow>
          if e = JSONDecodeError then
            (case salvage response_text of
               None \<Rightarrow> Inl ValueError
             | Some json_str \<Rightarrow>
                 (case loads json_str of
                    Inr parsed \<Rightarrow> Inr parsed
                  | Inl inner \<Rightarrow> Inl ValueError))
          else Inl e)"

text \<open>
  The region the specification describes: the part of the text that starts at its first
  opening brace and stops at its last closing brace. When the last closing brace comes
  before the first opening brace there is no such part and the slice is empty.
\<close>

definition brace_region :: "string \<Rightarrow> string \<Rightarrow> bool" where
  "brace_region response_text sub \<longleftrightarrow>
     (\<exists>before after.
        response_text = before @ sub @ after
        \<and> CHR ''{'' \<notin> set before \<and> CHR ''}'' \<notin> set after
        \<and> sub \<noteq> [] \<and> hd sub = CHR ''{'' \<and> last sub = CHR ''}'')"

definition braces_inverted :: "string \<Rightarrow> bool" where
  "braces_inverted response_text \<longleftrightarrow>
     (\<exists>before mid after.
        response_text = before @ CHR ''}'' # mid @ CHR ''{'' # after
        \<and> CHR ''{'' \<notin> set before \<and> CHR ''{'' \<notin> set mid
        \<and> CHR ''}'' \<notin> set mid \<and> CHR ''}'' \<notin> set after)"

text \<open>
  Two texts on which \<open>json.loads\<close> raises something other than \<open>JSONDecodeError\<close>, with
  what the library does on them and on the brace region of the second: a hundred thousand
  opening brackets, and an integer literal of five thousand digits followed by an object.
\<close>

definition deep_text :: string where
  "deep_text = replicate 100000 CHR ''[''"

definition loads_deep :: "string \<Rightarrow> py_error + json" where
  "loads_deep s = (if s = deep_text then Inl RecursionError else Inl JSONDecodeError)"

definition digits_text :: string where
  \<open>digits_text = replicate 5000 CHR ''9'' @ '' {"a":1}''\<close>

definition loads_digits :: "string \<Rightarrow> py_error + json" where
  \<open>loads_digits s =
     (if s = digits_text then Inl ValueError
      else if s = ''{"a":1}'' then Inr (JObj [(''a'', JNum 1)])
      else Inl JSONDecodeError)\<close>

section \<open>Fan-in of the asynchronous workflow\<close>

text \<open>
  \<open>tara_workflow.py\<close>: one element of the list \<open>asyncio.gather(..., return_exceptions=True)\<close>
  returns. A child that raised is in the list as its exception; no child is ever cancelled.
\<close>

datatype 'a outcome = Raised py_error | Returned 'a

text \<open>
  The loop of \<open>_process_asset_async\<close> over the attribute results, which is also the loop of
  \<open>process_attribute_async\<close> over the damage scenario results:
  \<open>if isinstance(result, Exception): continue\<close>, then \<open>results.extend(result)\<close>.
  The second argument is the list built so far.
\<close>

fun collect_extend :: "'a list outcome list \<Rightarrow> 'a list \<Rightarrow> 'a list" where
  "collect_extend [] results = results"
| "collect_extend (Raised e # rest) results = collect_extend rest results"
| "collect_extend (Returned result # rest) results = collect_extend rest (results @ result)"

text \<open>
  The loop of \<open>exec_tara_analysis_workflow_async\<close> over the asset results: each result is
  a pair of acc, and each list is extended.
\<close>

fun collect_assets ::
  "('a list \<times> 'c list) outcome list \<Rightarrow> 'a list \<times> 'c list \<Rightarrow> 'a list \<times> 'c list"
where
  "collect_assets [] acc = acc"
| "collect_assets (Raised e # rest) acc = collect_assets rest acc"
| "collect_assets (Returned (single_tara, single_csr) # rest) (tara, csr) =
     collect_assets rest (tara @ single_tara, csr @ single_csr)"

text \<open>
  The loop of \<open>process_damage_scenario_async\<close> over the threat scenario results: a result
  is one artifact or \<open>None\<close>, and \<open>if result: results.append(result)\<close> drops \<open>None\<close>.
\<close>

fun collect_append :: "'a option outcome list \<Rightarrow> 'a list \<Rightarrow> 'a list" where
  "collect_append [] results = results"
| "collect_append (Raised e # rest) results = collect_append rest results"
| "collect_append (Returned None # rest) results = collect_append rest results"
| "collect_append (Returned (Some result) # rest) results = collect_append rest (results @ [result])"

text \<open>What the branches that did not raise returned, in order.\<close>

fun returned :: "'a outcome list \<Rightarrow> 'a list" where
  "returned [] = []"
| "returned (Raised e # rest) = returned rest"
| "returned (Returned x # rest) = x # returned rest"

text \<open>A threat scenario branch is completed when it returned an artifact.\<close>

fun completed :: "'a option outcome \<Rightarrow> bool" where
  "completed (Returned (Some x)) = True"
| "completed other = False"

section \<open>Retry around the terminal stage pair\<close>

text \<open>
  \<open>process_threat_scenario_async\<close>. The two stages talk to the external service, so their
  results are inputs: \<open>rta k x\<close> is what \<open>asset_threat_risk_treatment_assessment_async\<close>
  does on the pass with \<open>retry_count = k\<close>, and \<open>cso k d\<close> what
  \<open>asset_cso_csr_assessment_async\<close> does on its result. The trace records each pass
  through the \<open>try\<close> body, numbered from 1, and each \<open>asyncio.sleep\<close> with its seconds.
\<close>

datatype orch_event = StagePair nat | Slept nat

definition max_stage_retries :: nat where
  "max_stage_retries = 2"

function process_threat_loop ::
  "(nat \<Rightarrow> 'a \<Rightarrow> py_error + 'b) \<Rightarrow> (nat \<Rightarrow> 'b \<Rightarrow> py_error + 'c) \<Rightarrow> 'a \<Rightarrow> nat
     \<Rightarrow> 'c option \<times> orch_event list"
where
  "process_threat_loop rta cso asset_threat_scenario retry_count =
     (if retry_count \<le> max_stage_retries then
        (case bind_err (rta retry_count asset_threat_scenario) (cso retry_count) of
           Inr asset_cso_csr_decision \<Rightarrow>
             (Some asset_cso_csr_decision, [StagePair (retry_count + 1)])
         | Inl e \<Rightarrow>
             (if retry_count + 1 > max_stage_retries then (None, [StagePair (retry_count + 1)])
              else (case process_threat_loop rta cso asset_threat_scenario (retry_count + 1) of
                      (r, later) \<Rightarrow>
                        (r, StagePair (retry_count + 1) # Slept (2 ^ (retry_count + 1 - 1)) # later))))
      else (None, []))"
  by pat_completeness auto
termination
  by (relation "measure (\<lambda>(rta, cso, x, retry_count). Suc max_stage_retries - retry_count)") auto

declare process_threat_loop.simps [simp del]

definition process_threat_scenario_async ::
  "(nat \<Rightarrow> 'a \<Rightarrow> py_error + 'b) \<Rightarrow> (nat \<Rightarrow> 'b \<Rightarrow> py_error + 'c) \<Rightarrow> 'a
     \<Rightarrow> 'c option \<times> orch_event list"
where
  "process_threat_scenario_async rta cso asset_threat_scenario =
     process_threat_loop rta cso asset_threat_scenario 0"

text \<open>
  The schedule of a branch that makes \<open>n\<close> passes: before retry \<open>k\<close>, which is pass
  \<open>k + 1\<close>, it sleeps \<open>2 ^ (k - 1)\<close> seconds.
\<close>

definition retry_schedule :: "nat \<Rightarrow> orch_event list" where
  "retry_schedule n =
     concat (map (\<lambda>k. [StagePair k, Slept (2 ^ (k - 1))]) [1..<n]) @ [StagePair n]"

fun is_stage_pair :: "orch_event \<Rightarrow> bool" where
  "is_stage_pair (StagePair k) = True"
| "is_stage_pair (Slept d) = False"

definition stage_pair_fails ::
  "(nat \<Rightarrow> 'a \<Rightarrow> py_error + 'b) \<Rightarrow> (nat \<Rightarrow> 'b \<Rightarrow> py_error + 'c) \<Rightarrow> 'a \<Rightarrow> nat \<Rightarrow> bool"
where
  "stage_pair_fails rta cso x k \<longleftrightarrow> isl (bind_err (rta k x) (cso k))"

text \<open>Stage behaviours for the examples: a first stage that always fails, a second that passes.\<close>

definition failing_stage :: "nat \<Rightarrow> nat \<Rightarrow> py_error + nat" where
  "failing_stage k x = Inl RuntimeError"

definition passing_stage :: "nat \<Rightarrow> nat \<Rightarrow> py_error + nat" where
  "passing_stage k d = Inr d"

section \<open>The conditional control and requirement stage\<close>

text \<open>
  \<open>tara_objs/risk_treatment_decision.py\<close>, \<open>tara_objs/cybersecurity_control_requirement.py\<close>
  and \<open>tara_objs/asset_tara_info.py\<close>. Attributes that hold whatever the service answered
  are JSON values; \<open>JNull\<close> is Python's \<open>None\<close>. The three upstream parts of an artifact are
  not inspected by this stage and stay abstract.
\<close>

datatype RiskTreatmentOption = AVOID | REDUCE | SHARE | RETAIN

fun option_name :: "RiskTreatmentOption \<Rightarrow> string" where
  "option_name AVOID = ''AVOID''"
| "option_name REDUCE = ''REDUCE''"
| "option_name SHARE = ''SHARE''"
| "option_name RETAIN = ''RETAIN''"

definition lower_char :: "char \<Rightarrow> char" where
  "lower_char c =
     (case map_of (zip ''ABCDEFGHIJKLMNOPQRSTUVWXYZ'' ''abcdefghijklmnopqrstuvwxyz'') c of
        None \<Rightarrow> c
      | Some l \<Rightarrow> l)"

definition lower :: "string \<Rightarrow> string" where
  "lower s = map lower_char s"

record RiskTreatmentDecision =
  risk_value :: nat
  risk_treatment :: "RiskTreatmentOption option"
  item_change :: json
  cybersecurity_claim_id :: json
  cybersecurity_claim :: json
  cybersecurity_goal_id :: json
  cybersecurity_goal :: json

record CybersecurityControlRequirement =
  cybersecurity_control_id :: json
  cybersecurity_control :: json
  allocated_to_device :: json
  cybersecurity_requirement_id :: json
  cybersecurity_requirement :: json

record ('a, 'd, 't) AssetTaraInfo =
  asset_cybersecurity_attribute :: 'a
  damage_scenario_impact_level :: 'd
  threat_scenario_attack_feasibility :: 't
  risk_treatment_decision :: "RiskTreatmentDecision option"
  cybersecurity_control_requirement :: "CybersecurityControlRequirement option"

text \<open>\<open>CybersecurityControlRequirement()\<close>: every attribute is \<open>None\<close>.\<close>

definition empty_requirement :: CybersecurityControlRequirement where
  "empty_requirement =
     \<lparr>cybersecurity_control_id = JNull, cybersecurity_control = JNull,
      allocated_to_device = JNull, cybersecurity_requirement_id = JNull,
      cybersecurity_requirement = JNull\<rparr>"

text \<open>
  \<open>regenerate_csr_id\<close>: \<open>encode\<close> exists on strings only. The digest of the text and the clock
  is the parameter \<open>csr_hash\<close>.
\<close>

definition regenerate_csr_id :: "(string \<Rightarrow> string) \<Rightarrow> json \<Rightarrow> py_error + json" where
  "regenerate_csr_id csr_hash requirement =
     (case requirement of
        JStr s \<Rightarrow> Inr (JStr (''CSR-'' @ csr_hash s))
      | _ \<Rightarrow> Inl AttributeError)"

text \<open>
  \<open>asset_cso_csr_assessment\<close>, and line for line \<open>asset_cso_csr_assessment_async\<close>. The
  request (message, prompt and format text) is computed from the artifact by
  \<open>request_of\<close>; \<open>analyze\<close> is the call to the external service, whose exception is raised
  again. The result is what the call returns or raises, with the requests it issued.
  Reading \<open>.risk_treatment\<close> or \<open>.name\<close> of \<open>None\<close> is an \<open>AttributeError\<close>.
\<close>

definition asset_cso_csr_assessment ::
  "(string \<times> string \<times> string \<Rightarrow> py_error + (string \<times> json) list) \<Rightarrow> (string \<Rightarrow> string)
     \<Rightarrow> (('a, 'd, 't) AssetTaraInfo \<Rightarrow> string \<times> string \<times> string)
     \<Rightarrow> ('a, 'd, 't) AssetTaraInfo
     \<Rightarrow> (py_error + ('a, 'd, 't) AssetTaraInfo) \<times> (string \<times> string \<times> string) list"
where
  "asset_cso_csr_assessment analyze csr_hash request_of artifact =
     (let a = artifact\<lparr>cybersecurity_control_requirement := Some empty_requirement\<rparr>
      in case risk_treatment_decision a of
           None \<Rightarrow> (Inl AttributeError, [])
         | Some decision \<Rightarrow>
             (case risk_treatment decision of
                None \<Rightarrow> (Inl AttributeError, [])
              | Some opt \<Rightarrow>
                  if lower (option_name opt) = ''reduce'' then
                    (case analyze (request_of a) of
                       Inl e \<Rightarrow> (Inl e, [request_of a])
                     | Inr analysis_result \<Rightarrow>
                         (bind_err (dict_get analysis_result ''cybersecurity_control'') (\<lambda>control.
                          bind_err (dict_get analysis_result ''allocated_to_device'') (\<lambda>allocated.
                          bind_err (dict_get analysis_result ''cybersecurity_requirement_id'') (\<lambda>rid.
                          bind_err (dict_get analysis_result ''cybersecurity_requirement'') (\<lambda>req.
                          bind_err (regenerate_csr_id csr_hash req) (\<lambda>new_id.
                            Inr (a\<lparr>cybersecurity_control_requirement :=
                                     Some \<lparr>cybersecurity_control_id = JNull,
                                           cybersecurity_control = control,
                                           allocated_to_device = allocated,
                                           cybersecurity_requirement_id = new_id,
                                           cybersecurity_requirement = req\<rparr>\<rparr>)))))),
                          [request_of a]))
                  else (Inr a, [])))"

text \<open>
  An artifact as the risk treatment stage leaves it when the service answered with an
  empty \<open>risk_treatment\<close>: \<open>set_risk_treatment\<close> stores \<open>None\<close> for a falsy argument. The
  upstream parts are placeholders.
\<close>

definition undecided_artifact :: "(string, string, string) AssetTaraInfo" where
  "undecided_artifact =
     \<lparr>asset_cybersecurity_attribute = ''Integrity'',
      damage_scenario_impact_level = ''damage_scenario_1'',
      threat_scenario_attack_feasibility = ''threat_scenario_1'',
      risk_treatment_decision =
        Some \<lparr>risk_value = 3, risk_treatment = None, item_change = JStr [],
              cybersecurity_claim_id = JNull, cybersecurity_claim = JStr [],
              cybersecurity_goal_id = JNull, cybersecurity_goal = JStr []\<rparr>,
      cybersecurity_control_requirement = None\<rparr>"

section \<open>The request client\<close>

text \<open>
  \<open>ai_assistant/deepseek_ai.py\<close>, \<open>DeepSeekAIAssistant._send_request\<close>. What one
  \<open>session.post\<close> with \<open>raise_for_status\<close> and \<open>response.json()\<close> does is an input, given
  the index of the transmission and the timeout it was sent with: a decoded body, a
  \<open>Timeout\<close>, an \<open>HTTPError\<close> with its status code, another \<open>RequestException\<close>, or an
  exception outside that hierarchy, which no handler of the loop catches.
\<close>

datatype post_outcome =
    Responded json
  | TimedOut
  | BadStatus nat
  | TransportFailed
  | Crashed py_error

text \<open>
  The trace of the client: \<open>Attempt k\<close> is pass \<open>k\<close> through the \<open>try\<close> body of
  \<open>request_ai_response\<close> and \<open>Backoff d\<close> its \<open>time.sleep(delay)\<close>; \<open>Post a t\<close> is the
  transmission with loop index \<open>a\<close> and timeout \<open>t\<close> inside \<open>_send_request\<close> and \<open>Wait d\<close>
  the sleep between two transmissions.
\<close>

datatype client_event = Attempt nat | Backoff nat | Post nat real | Wait nat

text \<open>
  The body of \<open>for attempt in range(self.max_retries + 1)\<close>, over the indices still to
  run; falling off the end of the loop returns \<open>None\<close>.
\<close>

fun send_attempts ::
  "(nat \<Rightarrow> real \<Rightarrow> post_outcome) \<Rightarrow> int \<Rightarrow> nat list \<Rightarrow> real
     \<Rightarrow> (py_error + json option) \<times> client_event list"
where
  "send_attempts post max_retries [] current_timeout = (Inr None, [])"
| "send_attempts post max_retries (attempt # rest) current_timeout =
     (case post attempt current_timeout of
        Responded json_response \<Rightarrow> (Inr (Some json_response), [Post attempt current_timeout])
      | TimedOut \<Rightarrow>
          (if int attempt = max_retries then (Inl RequestTimeout, [Post attempt current_timeout])
           else (case send_attempts post max_retries rest (min (current_timeout * 1.5) 120) of
                   (r, later) \<Rightarrow> (r, Post attempt current_timeout # Wait (2 ^ attempt) # later)))
      | BadStatus status_code \<Rightarrow>
          (if int attempt = max_retries \<or> status_code \<ge> 500
           then (Inl (HTTPError status_code), [Post attempt current_timeout])
           else (case send_attempts post max_retries rest current_timeout of
                   (r, later) \<Rightarrow> (r, Post attempt current_timeout # Wait (2 ^ attempt) # later)))
      | TransportFailed \<Rightarrow>
          (if int attempt = max_retries then (Inl RequestException, [Post attempt current_timeout])
           else (case send_attempts post max_retries rest current_timeout of
                   (r, later) \<Rightarrow> (r, Post attempt current_timeout # Wait (2 ^ attempt) # later)))
      | Crashed e \<Rightarrow> (Inl e, [Post attempt current_timeout]))"

definition send_request ::
  "(nat \<Rightarrow> real \<Rightarrow> post_outcome) \<Rightarrow> int \<Rightarrow> real \<Rightarrow> (py_error + json option) \<times> client_event list"
where
  "send_request post max_retries timeout =
     send_attempts post max_retries [0..<nat (max_retries + 1)] timeout"

text \<open>The timeouts of the transmissions of a trace, in order.\<close>

fun post_timeouts :: "client_event list \<Rightarrow> real list" where
  "post_timeouts [] = []"
| "post_timeouts (Post a t # rest) = t # post_timeouts rest"
| "post_timeouts (other # rest) = post_timeouts rest"

text \<open>A service that never answers in time.\<close>

definition never_in_time :: "nat \<Rightarrow> real \<Rightarrow> post_outcome" where
  "never_in_time attempt current_timeout = TimedOut"










text \<open>The seconds a trace sleeps, in both loops together.\<close>

fun sleep_seconds :: "client_event \<Rightarrow> nat" where
  "sleep_seconds (Backoff d) = d"
| "sleep_seconds (Wait d) = d"
| "sleep_seconds other = 0"

definition total_sleep :: "client_event list \<Rightarrow> nat" where
  "total_sleep trace = sum_list (map sleep_seconds trace)"



section \<open>Theorems\<close>

subsection \<open>The risk matrices agree\<close>

text \<open>
  C3. For every impact level and every attack feasibility rating, the feasibility-first
  table of \<open>AssetTaraInfo.calculate_overall_risk\<close> and the severity-first table of
  \<open>AssetThreatRiskTreatmentDecision.calculate_risk_value\<close> write the same risk value.
\<close>

theorem risk_matrices_agree:
  "\<exists>v. calculate_overall_risk impact (Some rating) = Some v
      \<and> calculate_risk_value impact (Some rating) = Inr v"
  by (cases impact; cases rating)
     (simp_all add: calculate_overall_risk_def calculate_risk_value_def)

subsection \<open>The overall impact level\<close>

lemma calculate_impact_level_max:
  "\<exists>lvl. calculate_impact_level sa fi op pr = Inr lvl
     \<and> severity_value lvl =
         Max {severity_value sa, severity_value fi, severity_value op, severity_value pr}"
  by (cases sa; cases fi; cases op; cases pr)
     (simp_all add: calculate_impact_level_def SeverityLevel_of_value_def)

lemma impact_is_max_update:
  assumes "calculate_impact_level (safety s) (financial s) (operational s) (privacy s) = Inr lvl"
  shows "impact_is_max (s\<lparr>impact_level := lvl\<rparr>)"
  using assms calculate_impact_level_max [of "safety s" "financial s" "operational s" "privacy s"]
  by (auto simp add: impact_is_max_def)

lemma impact_is_max_dominates: "impact_is_max d \<Longrightarrow> no_dimension_above d"
  by (auto simp add: impact_is_max_def no_dimension_above_def)

lemma init_invariant:
  "\<exists>d. DamageScenarioImpactLevel_init sn ds sa fi op pr = Inr d \<and> impact_is_max d"
proof -
  obtain lvl where l: "calculate_impact_level sa fi op pr = Inr lvl"
    and m: "severity_value lvl =
         Max {severity_value sa, severity_value fi, severity_value op, severity_value pr}"
    using calculate_impact_level_max by blast
  show ?thesis
    by (simp add: DamageScenarioImpactLevel_init_def l impact_is_max_def m)
qed

lemma set_impact_levels_invariant:
  "\<exists>d. set_impact_levels sa fi op pr self = Inr d \<and> impact_is_max d"
proof -
  define s4 where "s4 =
    (let s1 = (case sa of None \<Rightarrow> self | Some v \<Rightarrow> self\<lparr>safety := v\<rparr>);
         s2 = (case fi of None \<Rightarrow> s1 | Some v \<Rightarrow> s1\<lparr>financial := v\<rparr>);
         s3 = (case op of None \<Rightarrow> s2 | Some v \<Rightarrow> s2\<lparr>operational := v\<rparr>)
     in (case pr of None \<Rightarrow> s3 | Some v \<Rightarrow> s3\<lparr>privacy := v\<rparr>))"
  obtain lvl where
    l: "calculate_impact_level (safety s4) (financial s4) (operational s4) (privacy s4) = Inr lvl"
    using calculate_impact_level_max by blast
  have "set_impact_levels sa fi op pr self = Inr (s4\<lparr>impact_level := lvl\<rparr>)"
    using l by (simp add: set_impact_levels_def s4_def Let_def)
  then show ?thesis using impact_is_max_update [OF l] by simp
qed

lemma by_strings_invariant:
  assumes "set_impact_levels_by_strings attributes self = Inr d"
  shows "impact_is_max d"
  using assms impact_is_max_update
  by (auto simp add: set_impact_levels_by_strings_def bind_err_def split: sum.splits)

lemma by_strings_sample:
  "set_impact_levels_by_strings
     [(''safety'', JStr ''Severe''), (''financial'', JNull),
      (''operational'', JStr ''major''), (''privacy'', JStr [])]
     sample_scenario
   = Inr (sample_scenario\<lparr>safety := SEVERE, operational := MAJOR, impact_level := SEVERE\<rparr>)"
  by (simp add: set_impact_levels_by_strings_def bind_err_def level_argument_def dict_get_def
      SeverityLevel_get_def upper_def upper_char_def set_impact_levels_def
      calculate_impact_level_def SeverityLevel_of_value_def sample_scenario_def)

text \<open>
  C10. Construction, \<open>set_impact_levels\<close> and \<open>set_impact_levels_by_strings\<close> all leave
  \<open>impact_level\<close> equal to the maximum of safety, financial, operational and privacy, so
  that it is never below any of them. The first two always complete; the third completes
  unless a key is missing or a truthy value is not a string, and then nothing was written.
\<close>

theorem impact_level_is_maximum:
  "(\<exists>d. DamageScenarioImpactLevel_init sn ds sa fi op pr = Inr d
        \<and> impact_is_max d \<and> no_dimension_above d)
   \<and> (\<exists>d. set_impact_levels sa' fi' op' pr' self = Inr d
        \<and> impact_is_max d \<and> no_dimension_above d)
   \<and> (\<forall>d. set_impact_levels_by_strings attributes self = Inr d
        \<longrightarrow> impact_is_max d \<and> no_dimension_above d)"
  using init_invariant [of sn ds sa fi op pr]
    set_impact_levels_invariant [of sa' fi' op' pr' self]
    by_strings_invariant [of attributes self]
  by (blast intro: impact_is_max_dominates)

theorem impact_level_is_maximum_witness:
  "set_impact_levels_by_strings
     [(''safety'', JStr ''Severe''), (''financial'', JNull),
      (''operational'', JStr ''major''), (''privacy'', JStr [])]
     sample_scenario
   = Inr (sample_scenario\<lparr>safety := SEVERE, operational := MAJOR, impact_level := SEVERE\<rparr>)
   \<and> impact_is_max
       (sample_scenario\<lparr>safety := SEVERE, operational := MAJOR, impact_level := SEVERE\<rparr>)
   \<and> no_dimension_above
       (sample_scenario\<lparr>safety := SEVERE, operational := MAJOR, impact_level := SEVERE\<rparr>)"
  using impact_level_is_maximum
    [of "[]" "[]" NEGLIGIBLE NEGLIGIBLE NEGLIGIBLE NEGLIGIBLE None None None None sample_scenario
        "[(''safety'', JStr ''Severe''), (''financial'', JNull),
          (''operational'', JStr ''major''), (''privacy'', JStr [])]"]
    by_strings_sample
  by simp

subsection \<open>The token bucket stays within its capacity\<close>

lemma refill_tokens_ok: "bucket_ok s \<Longrightarrow> bucket_ok (refill_tokens t s)"
  by (auto simp add: bucket_ok_def refill_tokens_def Let_def)

lemma refill_tokens_capacity:
  "tokens s \<le> max_burst s \<Longrightarrow> tokens (refill_tokens t s) \<le> max_burst (refill_tokens t s)"
  by (simp add: refill_tokens_def Let_def)

lemma acquire_attempt_ok:
  assumes "bucket_ok s" and "0 \<le> n"
  shows "bucket_ok (snd (acquire_attempt t n s))"
proof -
  have r: "bucket_ok (refill_tokens t s)" using assms(1) by (rule refill_tokens_ok)
  show ?thesis
    using r assms(2) by (auto simp add: acquire_attempt_def Let_def bucket_ok_def)
qed

lemma acquire_attempt_nonneg:
  "acquire_attempt t n s = (Acquired, s') \<Longrightarrow> 0 \<le> tokens s'"
  by (auto simp add: acquire_attempt_def Let_def split: if_splits)

lemma acquire_token_ok:
  "bucket_ok s \<Longrightarrow> 0 \<le> n \<Longrightarrow> bucket_ok (snd (acquire_token clock n s))"
proof (induction clock arbitrary: s)
  case Nil
  then show ?case by simp
next
  case (Cons now later)
  have step: "bucket_ok (snd (acquire_attempt now n s))"
    using Cons.prems by (simp add: acquire_attempt_ok)
  obtain out s1 where a: "acquire_attempt now n s = (out, s1)" by (cases "acquire_attempt now n s")
  with step have s1: "bucket_ok s1" by simp
  show ?case
  proof (cases out)
    case Acquired
    with a s1 show ?thesis by simp
  next
    case (MustWait w)
    with a s1 Cons.IH [of s1] Cons.prems(2) show ?thesis by simp
  next
    case (Raised e)
    with a s1 show ?thesis by simp
  qed
qed

lemma acquire_token_nonneg:
  "acquire_token clock n s = (Some (Inr True), s') \<Longrightarrow> 0 \<le> tokens s'"
proof (induction clock arbitrary: s)
  case Nil
  then show ?case by simp
next
  case (Cons now later)
  obtain out s1 where a: "acquire_attempt now n s = (out, s1)" by (cases "acquire_attempt now n s")
  show ?case
  proof (cases out)
    case Acquired
    with a Cons.prems show ?thesis by (auto dest: acquire_attempt_nonneg)
  next
    case (MustWait w)
    with a Cons.prems Cons.IH [of s1] show ?thesis by simp
  next
    case (Raised e)
    with a Cons.prems show ?thesis by simp
  qed
qed

lemma apply_bucket_op_ok:
  "bucket_ok s \<Longrightarrow> 0 \<le> requested x \<Longrightarrow> bucket_ok (apply_bucket_op x s)"
  by (cases x) (simp_all add: refill_tokens_ok acquire_token_ok)

lemma run_bucket_ops_ok:
  "bucket_ok s \<Longrightarrow> \<forall>x \<in> set xs. 0 \<le> requested x \<Longrightarrow> bucket_ok (run_bucket_ops xs s)"
  by (induction xs arbitrary: s) (simp_all add: apply_bucket_op_ok)

text \<open>
  C4. A bucket built with a capacity that is not negative satisfies
  \<open>0 \<le> tokens \<le> max_burst\<close>, and every history of refills and acquisitions (each asking for
  a number of tokens that is not negative, as every call in the program does) keeps it so.
  A refill never lifts \<open>tokens\<close> above \<open>max_burst\<close>, and a successful acquisition, of any
  request, leaves \<open>tokens\<close> at zero or above.
\<close>

theorem token_bucket_invariant:
  "(0 \<le> burst \<longrightarrow> bucket_ok (bucket_init rate burst t0))
   \<and> (bucket_ok s \<and> (\<forall>x \<in> set xs. 0 \<le> requested x) \<longrightarrow> bucket_ok (run_bucket_ops xs s))
   \<and> (tokens s \<le> max_burst s \<longrightarrow> tokens (refill_tokens t s) \<le> max_burst (refill_tokens t s))
   \<and> (acquire_token clock n s = (Some (Inr True), s') \<longrightarrow> 0 \<le> tokens s')"
  using run_bucket_ops_ok [of s xs] refill_tokens_capacity [of s t]
    acquire_token_nonneg [of clock n s s']
  by (simp add: bucket_init_def bucket_ok_def)

theorem token_bucket_invariant_witness:
  "(0::real) \<le> 10
   \<and> bucket_ok (bucket_init 20 10 0)
   \<and> 0 \<le> requested (Acquire [0, 3] 11) \<and> 0 \<le> requested (Refill 6)
   \<and> 0 \<le> requested (Acquire [7] 1)
   \<and> bucket_ok (run_bucket_ops [Acquire [0, 3] 11, Refill 6, Acquire [7] 1] (bucket_init 20 10 0))
   \<and> tokens (bucket_init 20 10 0) \<le> max_burst (bucket_init 20 10 0)
   \<and> tokens (refill_tokens 6 (bucket_init 20 10 0)) \<le> max_burst (refill_tokens 6 (bucket_init 20 10 0))
   \<and> acquire_token [7] 1 (bucket_init 20 10 0)
       = (Some (Inr True), (bucket_init 20 10 0)\<lparr>tokens := 9, last_refill_time := 7\<rparr>)
   \<and> (0::real) \<le> tokens ((bucket_init 20 10 0)\<lparr>tokens := 9, last_refill_time := 7\<rparr>)"
proof -
  have a: "acquire_token [7] 1 (bucket_init 20 10 0)
       = (Some (Inr True), (bucket_init 20 10 0)\<lparr>tokens := 9, last_refill_time := 7\<rparr>)"
    by (simp add: acquire_attempt_def refill_tokens_def bucket_init_def Let_def)
  have h: "\<forall>x \<in> set [Acquire [0, 3] 11, Refill 6, Acquire [7] 1]. 0 \<le> requested x"
    by simp
  show ?thesis
    using token_bucket_invariant
      [of 10 20 0 "bucket_init 20 10 0" "[Acquire [0, 3] 11, Refill 6, Acquire [7] 1]" 6 "[7]" 1
          "(bucket_init 20 10 0)\<lparr>tokens := 9, last_refill_time := 7\<rparr>"] a h
    by (simp add: bucket_init_def bucket_ok_def)
qed

subsection \<open>Response validation\<close>

lemma check_item_fields_true:
  "check_item_fields flds = Inr True
     \<Longrightarrow> \<forall>kv \<in> set flds. \<exists>s. snd kv = JStr s \<and> strip s \<noteq> []"
  by (induction flds rule: check_item_fields.induct) (auto split: if_splits)

lemma check_items_true:
  "check_items items = Inr True \<Longrightarrow> \<forall>item \<in> set items. nonblank_fields item"
proof (induction items rule: check_items.induct)
  case 1
  then show ?case by simp
next
  case (2 flds rest)
  from "2.prems" have f: "check_item_fields flds = Inr True" and r: "check_items rest = Inr True"
    by (auto simp add: bind_err_def split: sum.splits if_splits)
  from f have "nonblank_fields (JObj flds)"
    using check_item_fields_true by (simp add: nonblank_fields_def)
  with "2.IH" r show ?case by simp
qed simp_all

lemma check_items_strings:
  "s \<noteq> [] \<Longrightarrow> check_items (map (\<lambda>c. JStr [c]) s) = Inl AttributeError"
  by (cases s) simp_all

lemma check_items_keys:
  "kvs \<noteq> [] \<Longrightarrow> check_items (map (\<lambda>kv. JStr (fst kv)) kvs) = Inl AttributeError"
  by (cases kvs) simp_all

lemma check_list_key_true:
  assumes "check_list_key response_json key = Inr True"
  shows "nonempty_item_list response_json key"
proof -
  from assms obtain v where v: "map_of response_json key = Some v"
    by (auto simp add: check_list_key_def split: option.splits)
  from assms v have c: "bind_err (py_len v) (\<lambda>n.
            if n = 0 then Inr False else bind_err (py_iter v) check_items) = Inr True"
    by (simp add: check_list_key_def)
  show ?thesis
  proof (cases v)
    case (JArr items)
    with c have "items \<noteq> []" and "check_items items = Inr True"
      by (auto simp add: bind_err_def split: if_splits)
    with v JArr show ?thesis
      using check_items_true by (simp add: nonempty_item_list_def)
  next
    case (JStr s)
    with c show ?thesis
      using check_items_strings [of s] by (auto simp add: bind_err_def split: if_splits)
  next
    case (JObj kvs)
    with c show ?thesis
      using check_items_keys [of kvs] by (auto simp add: bind_err_def split: if_splits)
  qed (use c in \<open>simp_all add: bind_err_def\<close>)
qed

lemma check_keys_true:
  "check_keys response_json format_json = Inr True \<Longrightarrow> (key, fv) \<in> set format_json
     \<Longrightarrow> check_key response_json key fv = Inr True"
proof (induction format_json)
  case Nil
  then show ?case by simp
next
  case (Cons kv rest)
  obtain k v where kv: "kv = (k, v)" by (cases kv)
  from Cons.prems(1) kv have h: "check_key response_json k v = Inr True"
    and t: "check_keys response_json rest = Inr True"
    by (auto simp add: bind_err_def split: sum.splits if_splits)
  from Cons.prems(2) kv consider "(key, fv) = (k, v)" | "(key, fv) \<in> set rest" by auto
  then show ?case
  proof cases
    case 1
    with h show ?thesis by simp
  next
    case 2
    with Cons.IH t show ?thesis by simp
  qed
qed

lemma validate_list_key:
  assumes "validate_response_format loads response_json format_text"
    and "loads format_text = Some (JObj format_json)"
    and "(key, fv) \<in> set format_json"
    and "key \<in> set list_keys"
  shows "nonempty_item_list response_json key"
proof -
  from assms(1,2) have "check_keys response_json format_json = Inr True"
    by (auto simp add: validate_response_format_def split: sum.splits)
  then have "check_key response_json key fv = Inr True"
    using assms(3) by (rule check_keys_true)
  with assms(4) have "check_list_key response_json key = Inr True"
    by (simp add: check_key_def)
  then show ?thesis by (rule check_list_key_true)
qed

lemma strip_one: "strip ''1'' = ''1''"
  by (simp add: strip_def is_space_def)

lemma validate_examples:
  assumes "loads format_text = Some (template_of ''possible_damage_scenario_list'')"
  shows "\<not> validate_response_format loads (payload_blank ''possible_damage_scenario_list'') format_text"
    and "validate_response_format loads (payload_good ''possible_damage_scenario_list'') format_text"
    and "\<not> validate_response_format loads payload_missing format_text"
  using assms
  by (simp_all add: validate_response_format_def template_of_def payload_blank_def
      payload_good_def payload_missing_def check_key_def list_keys_def check_list_key_def
      bind_err_def strip_one, simp_all add: strip_def)

lemma validate_examples_unlisted:
  assumes "loads format_text = Some (template_of ''list_key'')"
  shows "validate_response_format loads (payload_good ''list_key'') format_text"
    and "\<not> validate_response_format loads payload_missing format_text"
  using assms
  by (simp_all add: validate_response_format_def template_of_def payload_good_def
      payload_missing_def check_key_def list_keys_def bind_err_def)

text \<open>
  C1, as amended. The item check is attached to the four list keys by name. For a template
  key with one of these names, a payload is accepted only if it has the key with a
  non-empty list whose elements are dictionaries with non-blank string values only. With
  the template \<open>{"possible_damage_scenario_list":[{"a":"x"}]}\<close> the payload with a blank
  field is rejected, the payload \<open>[{"a":"1"}]\<close> is accepted and the payload without the key
  is rejected. With the template \<open>{"list_key":[{"a":"x"}]}\<close> the payload \<open>[{"a":"1"}]\<close> is
  accepted and the payload without the key is rejected.
\<close>

theorem validate_list_keys_by_name:
  "(validate_response_format loads response_json format_text
      \<and> loads format_text = Some (JObj format_json)
      \<and> (key, fv) \<in> set format_json \<and> key \<in> set list_keys
      \<longrightarrow> nonempty_item_list response_json key)
   \<and> (loads format_text = Some (template_of ''possible_damage_scenario_list'')
      \<longrightarrow> \<not> validate_response_format loads
              (payload_blank ''possible_damage_scenario_list'') format_text
        \<and> validate_response_format loads
              (payload_good ''possible_damage_scenario_list'') format_text
        \<and> \<not> validate_response_format loads payload_missing format_text)
   \<and> (loads format_text = Some (template_of ''list_key'')
      \<longrightarrow> validate_response_format loads (payload_good ''list_key'') format_text
        \<and> \<not> validate_response_format loads payload_missing format_text)"
  using validate_list_key [of loads response_json format_text format_json key fv]
    validate_examples [of loads format_text] validate_examples_unlisted [of loads format_text]
  by blast

text \<open>
  The claim as written fails: under the key \<open>list_key\<close>, which is not one of the four
  names, the list-valued template only asks for the key, and the blank field is accepted.
\<close>

theorem validate_list_key_counterexample:
  \<open>validate_response_format
     (\<lambda>text. if text = ''{"list_key":[{"a":"x"}]}'' then Some (template_of ''list_key'') else None)
     (payload_blank ''list_key'') ''{"list_key":[{"a":"x"}]}''\<close>
  by (simp add: validate_response_format_def template_of_def payload_blank_def check_key_def
      list_keys_def bind_err_def)

theorem validate_list_keys_by_name_witness:
  \<open>(\<lambda>text. if text = ''{"possible_damage_scenario_list":[{"a":"x"}]}''
            then Some (template_of ''possible_damage_scenario_list'') else None)
       ''{"possible_damage_scenario_list":[{"a":"x"}]}''
     = Some (JObj [(''possible_damage_scenario_list'', JArr [JObj [(''a'', JStr ''x'')]])])
   \<and> (''possible_damage_scenario_list'', JArr [JObj [(''a'', JStr ''x'')]])
       \<in> set [(''possible_damage_scenario_list'', JArr [JObj [(''a'', JStr ''x'')]])]
   \<and> ''possible_damage_scenario_list'' \<in> set list_keys
   \<and> validate_response_format
       (\<lambda>text. if text = ''{"possible_damage_scenario_list":[{"a":"x"}]}''
            then Some (template_of ''possible_damage_scenario_list'') else None)
       (payload_good ''possible_damage_scenario_list'')
       ''{"possible_damage_scenario_list":[{"a":"x"}]}''
   \<and> nonempty_item_list (payload_good ''possible_damage_scenario_list'')
       ''possible_damage_scenario_list''\<close>
proof -
  let ?text = \<open>''{"possible_damage_scenario_list":[{"a":"x"}]}''\<close>
  let ?loads = "\<lambda>text. if text = ?text
            then Some (template_of ''possible_damage_scenario_list'') else None"
  let ?fv = "JArr [JObj [(''a'', JStr ''x'')]]"
  have l: "?loads ?text = Some (JObj [(''possible_damage_scenario_list'', ?fv)])"
    by (simp add: template_of_def)
  have t: "?loads ?text = Some (template_of ''possible_damage_scenario_list'')"
    by simp
  have k: "''possible_damage_scenario_list'' \<in> set list_keys"
    by (simp add: list_keys_def)
  have m: "(''possible_damage_scenario_list'', ?fv)
      \<in> set [(''possible_damage_scenario_list'', ?fv)]"
    by simp
  from validate_list_keys_by_name
    [of ?loads "payload_good ''possible_damage_scenario_list''" ?text
        "[(''possible_damage_scenario_list'', ?fv)]" "''possible_damage_scenario_list''" ?fv]
    l t k m
  show ?thesis by blast
qed

subsection \<open>Parsing the response text\<close>

lemma index_of_None: "index_of xs c = None \<longleftrightarrow> c \<notin> set xs"
  by (induction xs) auto

lemma index_of_Some:
  "index_of xs c = Some i \<Longrightarrow> i < length xs \<and> xs ! i = c \<and> c \<notin> set (take i xs)"
proof (induction xs arbitrary: i)
  case Nil
  then show ?case by simp
next
  case (Cons y ys)
  show ?case
  proof (cases "y = c")
    case True
    with Cons.prems show ?thesis by simp
  next
    case False
    with Cons.prems obtain k where k: "index_of ys c = Some k" and i: "i = Suc k"
      by auto
    from Cons.IH [OF k] False i show ?thesis by simp
  qed
qed

lemma salvage_None:
  "salvage rtext = None \<longleftrightarrow> CHR ''{'' \<notin> set rtext \<or> CHR ''}'' \<notin> set rtext"
proof -
  have f: "py_find rtext CHR ''{'' = - 1 \<longleftrightarrow> CHR ''{'' \<notin> set rtext"
    using index_of_None [of rtext "CHR ''{''"]
    by (auto simp add: py_find_def split: option.splits)
  have "py_rfind rtext CHR ''}'' + 1 = 0 \<longleftrightarrow> index_of (rev rtext) CHR ''}'' = None"
    using index_of_Some [of "rev rtext" "CHR ''}''"]
    by (auto simp add: py_rfind_def split: option.splits)
  then have r: "py_rfind rtext CHR ''}'' + 1 = 0 \<longleftrightarrow> CHR ''}'' \<notin> set rtext"
    using index_of_None [of "rev rtext" "CHR ''}''"] by simp
  show ?thesis
    using f r by (auto simp add: salvage_def Let_def)
qed

lemma salvage_Some:
  assumes "salvage rtext = Some sub"
  shows "sub = [] \<or> brace_region rtext sub"
proof -
  from assms have "CHR ''{'' \<in> set rtext" and "CHR ''}'' \<in> set rtext"
    using salvage_None [of rtext] by auto
  then obtain i k where i: "index_of rtext CHR ''{'' = Some i"
    and k: "index_of (rev rtext) CHR ''}'' = Some k"
    using index_of_None [of rtext "CHR ''{''"] index_of_None [of "rev rtext" "CHR ''}''"]
    by auto
  from index_of_Some [OF i] have i1: "i < length rtext" and i2: "rtext ! i = CHR ''{''"
    and i3: "CHR ''{'' \<notin> set (take i rtext)" by simp_all
  from index_of_Some [OF k] have k1: "k < length rtext" and k2: "rev rtext ! k = CHR ''}''"
    and k3: "CHR ''}'' \<notin> set (take k (rev rtext))" by simp_all
  define j where "j = length rtext - 1 - k"
  have j1: "j < length rtext" using k1 by (simp add: j_def)
  have j2: "rtext ! j = CHR ''}''"
    using k1 k2 by (simp add: rev_nth j_def)
  have "take k (rev rtext) = rev (drop (length rtext - k) rtext)"
    by (simp add: take_rev)
  moreover have "length rtext - k = Suc j" using k1 by (simp add: j_def)
  ultimately have j3: "CHR ''}'' \<notin> set (drop (Suc j) rtext)" using k3 by simp
  have s: "sub = drop i (take (Suc j) rtext)"
  proof -
    have "py_rfind rtext CHR ''}'' + 1 = int (Suc j)"
      using k k1 by (simp add: py_rfind_def j_def)
    then have "py_rfind rtext CHR ''}'' + 1 \<noteq> 0"
      and "nat (py_rfind rtext CHR ''}'' + 1) = Suc j"
      by simp_all
    moreover have "py_find rtext CHR ''{'' = int i" using i by (simp add: py_find_def)
    ultimately show ?thesis
      using assms by (simp add: salvage_def Let_def py_slice_def split: if_splits)
  qed
  show ?thesis
  proof (cases "i \<le> j")
    case False
    then show ?thesis using s by simp
  next
    case True
    have ne: "sub \<noteq> []" using s True j1 by simp
    have d: "rtext = take i rtext @ sub @ drop (Suc j) rtext"
    proof -
      have "take (Suc j) rtext = take i (take (Suc j) rtext) @ drop i (take (Suc j) rtext)"
        by (rule append_take_drop_id [symmetric])
      moreover have "take i (take (Suc j) rtext) = take i rtext" using True by simp
      ultimately have "take (Suc j) rtext = take i rtext @ sub" using s by simp
      then have "take (Suc j) rtext @ drop (Suc j) rtext = (take i rtext @ sub) @ drop (Suc j) rtext"
        by simp
      then show ?thesis by simp
    qed
    have h: "hd sub = CHR ''{''"
      using s True j1 i2 by (simp add: hd_drop_conv_nth)
    have l: "last sub = CHR ''}''"
    proof -
      have "i < length (take (Suc j) rtext)" using True j1 by simp
      then have "last sub = last (take (Suc j) rtext)" unfolding s by (rule last_drop)
      also have "\<dots> = rtext ! j" using j1 by (simp add: take_Suc_conv_app_nth)
      finally show ?thesis using j2 by simp
    qed
    from d i3 j3 ne h l have "brace_region rtext sub"
      unfolding brace_region_def by blast
    then show ?thesis by simp
  qed
qed

lemma salvage_inverted:
  assumes "salvage rtext = Some sub" and "\<not> brace_region rtext sub"
  shows "sub = [] \<and> braces_inverted rtext"
proof -
  from assms(1) have "CHR ''{'' \<in> set rtext" and "CHR ''}'' \<in> set rtext"
    using salvage_None [of rtext] by auto
  then obtain i k where i: "index_of rtext CHR ''{'' = Some i"
    and k: "index_of (rev rtext) CHR ''}'' = Some k"
    using index_of_None [of rtext "CHR ''{''"] index_of_None [of "rev rtext" "CHR ''}''"]
    by auto
  from index_of_Some [OF i] have i1: "i < length rtext" and i2: "rtext ! i = CHR ''{''"
    and i3: "CHR ''{'' \<notin> set (take i rtext)" by simp_all
  from index_of_Some [OF k] have k1: "k < length rtext" and k2: "rev rtext ! k = CHR ''}''"
    and k3: "CHR ''}'' \<notin> set (take k (rev rtext))" by simp_all
  define j where "j = length rtext - 1 - k"
  have j1: "j < length rtext" using k1 by (simp add: j_def)
  have j2: "rtext ! j = CHR ''}''"
    using k1 k2 by (simp add: rev_nth j_def)
  have "take k (rev rtext) = rev (drop (length rtext - k) rtext)"
    by (simp add: take_rev)
  moreover have "length rtext - k = Suc j" using k1 by (simp add: j_def)
  ultimately have j3: "CHR ''}'' \<notin> set (drop (Suc j) rtext)" using k3 by simp
  have s: "sub = drop i (take (Suc j) rtext)"
  proof -
    have "py_rfind rtext CHR ''}'' + 1 = int (Suc j)"
      using k k1 by (simp add: py_rfind_def j_def)
    then have "py_rfind rtext CHR ''}'' + 1 \<noteq> 0"
      and "nat (py_rfind rtext CHR ''}'' + 1) = Suc j"
      by simp_all
    moreover have "py_find rtext CHR ''{'' = int i" using i by (simp add: py_find_def)
    ultimately show ?thesis
      using assms(1) by (simp add: salvage_def Let_def py_slice_def split: if_splits)
  qed
  have "i \<noteq> j" using i2 j2 by auto
  have "\<not> i \<le> j"
  proof
    assume "i \<le> j"
    then have "sub \<noteq> []" using s j1 by simp
    with salvage_Some [OF assms(1)] assms(2) show False by simp
  qed
  then have ji: "j < i" by simp
  have e: "sub = []" using s ji by simp
  let ?mid = "drop (Suc j) (take i rtext)"
  have t1: "rtext = take i rtext @ CHR ''{'' # drop (Suc i) rtext"
    using id_take_nth_drop [OF i1] i2 by simp
  have "j < length (take i rtext)" using ji i1 by simp
  from id_take_nth_drop [OF this]
  have t2: "take i rtext = take j rtext @ CHR ''}'' # ?mid"
    using ji j2 by simp
  have d: "rtext = take j rtext @ CHR ''}'' # ?mid @ CHR ''{'' # drop (Suc i) rtext"
    using t1 t2 by (metis append.assoc append_Cons)
  have m1: "CHR ''{'' \<notin> set (take j rtext)" and m2: "CHR ''{'' \<notin> set ?mid"
    using i3 t2 by (metis Un_iff set_append, metis Un_iff list.set_intros(2) set_append)
  have "set ?mid \<subseteq> set (drop (Suc j) rtext)"
    by (metis drop_take set_take_subset)
  then have m3: "CHR ''}'' \<notin> set ?mid" using j3 by auto
  have "set (drop (Suc i) rtext) \<subseteq> set (drop (Suc j) rtext)"
    using ji by (simp add: set_drop_subset_set_drop)
  then have m4: "CHR ''}'' \<notin> set (drop (Suc i) rtext)" using j3 by auto
  from d m1 m2 m3 m4 have "braces_inverted rtext"
    unfolding braces_inverted_def by blast
  with e show ?thesis by simp
qed

text \<open>
  What the method does in each case of the first call of \<open>json.loads\<close>: a value is
  returned; after \<open>JSONDecodeError\<close> the brace region is tried and \<open>ValueError\<close> is raised
  exactly when there is none or it does not parse; any other exception is raised as it is.
\<close>

lemma validate_json_response_cases:
  "(loads rtext = Inr v \<longrightarrow> validate_json_response loads rtext = Inr v)
   \<and> (loads rtext = Inl JSONDecodeError \<and> salvage rtext = Some sub \<and> loads sub = Inr v
        \<longrightarrow> validate_json_response loads rtext = Inr v)
   \<and> (loads rtext = Inl JSONDecodeError
        \<longrightarrow> (validate_json_response loads rtext = Inl ValueError
             \<longleftrightarrow> (\<forall>region. salvage rtext = Some region \<longrightarrow> isl (loads region))))
   \<and> (loads rtext = Inl e \<and> e \<noteq> JSONDecodeError
        \<longrightarrow> validate_json_response loads rtext = Inl e)
   \<and> (salvage rtext = None \<longleftrightarrow> CHR ''{'' \<notin> set rtext \<or> CHR ''}'' \<notin> set rtext)
   \<and> (salvage rtext = Some sub
        \<longrightarrow> brace_region rtext sub \<or> (sub = [] \<and> braces_inverted rtext))"
proof -
  have a: "loads rtext = Inr v \<longrightarrow> validate_json_response loads rtext = Inr v"
    by (simp add: validate_json_response_def)
  have b: "loads rtext = Inl JSONDecodeError \<and> salvage rtext = Some sub \<and> loads sub = Inr v
        \<longrightarrow> validate_json_response loads rtext = Inr v"
    by (simp add: validate_json_response_def)
  have c: "loads rtext = Inl JSONDecodeError
        \<longrightarrow> (validate_json_response loads rtext = Inl ValueError
             \<longleftrightarrow> (\<forall>region. salvage rtext = Some region \<longrightarrow> isl (loads region)))"
    by (auto simp add: validate_json_response_def split: option.splits sum.splits)
  have d: "loads rtext = Inl e \<and> e \<noteq> JSONDecodeError
        \<longrightarrow> validate_json_response loads rtext = Inl e"
    by (simp add: validate_json_response_def)
  show ?thesis
    using a b c d salvage_None [of rtext] salvage_inverted [of rtext sub] by blast
qed

lemma index_of_append: "index_of xs c = Some k \<Longrightarrow> index_of (xs @ ys) c = Some k"
  by (induction xs arbitrary: k) (auto split: if_splits)

lemma salvage_skip:
  assumes "x \<noteq> CHR ''{''" and "x \<noteq> CHR ''}''"
  shows "salvage (x # rtext) = salvage rtext"
proof (cases "salvage rtext")
  case None
  then show ?thesis
    using assms salvage_None [of rtext] salvage_None [of "x # rtext"] by auto
next
  case (Some sub)
  then have "CHR ''{'' \<in> set rtext" and "CHR ''}'' \<in> set rtext"
    using salvage_None [of rtext] by auto
  then obtain i k where i: "index_of rtext CHR ''{'' = Some i"
    and k: "index_of (rev rtext) CHR ''}'' = Some k"
    using index_of_None [of rtext "CHR ''{''"] index_of_None [of "rev rtext" "CHR ''}''"]
    by auto
  from index_of_Some [OF k] have k1: "k < length rtext" by simp
  have kk: "index_of (rev rtext @ [x]) CHR ''}'' = Some k"
    using k by (rule index_of_append)
  have f: "py_find (x # rtext) CHR ''{'' = py_find rtext CHR ''{'' + 1"
    using i assms(1) by (simp add: py_find_def)
  have r: "py_rfind (x # rtext) CHR ''}'' = py_rfind rtext CHR ''}'' + 1"
    using k kk by (simp add: py_rfind_def)
  have f0: "py_find rtext CHR ''{'' = int i" using i by (simp add: py_find_def)
  define m where "m = length rtext - k"
  have m: "0 < m" using k1 by (simp add: m_def)
  have r0: "py_rfind rtext CHR ''}'' + 1 = int m"
    using k k1 by (simp add: py_rfind_def m_def)
  have n1: "nat (int i + 1) = Suc i" and n2: "nat (int m + 1) = Suc m" by simp_all
  have "salvage (x # rtext) = Some (drop i (take m rtext))"
    unfolding salvage_def Let_def f r f0 r0 py_slice_def n1 n2 by simp
  moreover have "salvage rtext = Some (drop i (take m rtext))"
    unfolding salvage_def Let_def f0 r0 py_slice_def using m by simp
  ultimately show ?thesis by simp
qed

lemma salvage_replicate:
  "c \<noteq> CHR ''{'' \<Longrightarrow> c \<noteq> CHR ''}'' \<Longrightarrow> salvage (replicate n c @ rtext) = salvage rtext"
  by (induction n) (simp_all add: salvage_skip)

lemma digits_text_region: \<open>salvage digits_text = Some ''{"a":1}''\<close>
proof -
  have \<open>salvage '' {"a":1}'' = Some ''{"a":1}''\<close>
    by (simp add: salvage_def py_find_def py_rfind_def py_slice_def)
  then show ?thesis
    unfolding digits_text_def by (simp add: salvage_replicate)
qed

lemma digits_text_longer: \<open>''{"a":1}'' \<noteq> digits_text\<close>
proof
  assume \<open>''{"a":1}'' = digits_text\<close>
  then have \<open>length ''{"a":1}'' = length digits_text\<close> by simp
  then show False by (simp add: digits_text_def)
qed

text \<open>
  C8. The claim fails where the first call of \<open>json.loads\<close> raises something that is not a
  \<open>JSONDecodeError\<close>. On the text of deep brackets, which has no brace region, the method
  raises \<open>RecursionError\<close>, not \<open>ValueError\<close>. On the text that starts with the long
  integer literal, whose brace region parses, the method raises the library's
  \<open>ValueError\<close> without trying the region.
\<close>

theorem validate_json_response_uncaught:
  \<open>validate_json_response loads_deep deep_text = Inl RecursionError
   \<and> salvage deep_text = None
   \<and> validate_json_response loads_digits digits_text = Inl ValueError
   \<and> salvage digits_text = Some ''{"a":1}''
   \<and> loads_digits ''{"a":1}'' = Inr (JObj [(''a'', JNum 1)])\<close>
proof -
  have a: "validate_json_response loads_deep deep_text = Inl RecursionError"
    by (simp add: validate_json_response_def loads_deep_def)
  have b: "salvage deep_text = None"
    using salvage_None [of deep_text] by (simp add: deep_text_def)
  have c: "validate_json_response loads_digits digits_text = Inl ValueError"
    by (simp add: validate_json_response_def loads_digits_def)
  have d: \<open>loads_digits ''{"a":1}'' = Inr (JObj [(''a'', JNum 1)])\<close>
    using digits_text_longer by (simp add: loads_digits_def)
  from a b c d digits_text_region show ?thesis by simp
qed

subsection \<open>Fan-in keeps every branch that did not fail\<close>

lemma collect_extend_concat: "collect_extend outs acc = acc @ concat (returned outs)"
  by (induction outs acc rule: collect_extend.induct) simp_all

lemma collect_assets_concat:
  "collect_assets outs (ta, cs) =
     (ta @ concat (map fst (returned outs)), cs @ concat (map snd (returned outs)))"
  by (induction outs "(ta, cs)" arbitrary: ta cs rule: collect_assets.induct) simp_all

lemma collect_append_returned:
  "collect_append outs acc = acc @ concat (map (\<lambda>r. case r of None \<Rightarrow> [] | Some x \<Rightarrow> [x]) (returned outs))"
  by (induction outs acc rule: collect_append.induct) simp_all

lemma collect_append_length:
  "length (collect_append outs acc) = length acc + length (filter completed outs)"
  by (induction outs acc rule: collect_append.induct) simp_all

lemma returned_append: "returned (xs @ ys) = returned xs @ returned ys"
  by (induction xs rule: returned.induct) simp_all

lemma returned_map: "returned (map (map_outcome f) outs) = map f (returned outs)"
  by (induction outs rule: returned.induct) simp_all

lemma nested_count:
  "length (collect_extend (map (map_outcome (\<lambda>touts. collect_append touts [])) douts) []) =
     sum_list (map (\<lambda>touts. length (filter completed touts)) (returned douts))"
  by (simp add: collect_extend_concat returned_map length_concat comp_def collect_append_length)

text \<open>
  C9. Each fan-in loop yields the concatenation, in order, of what the branches that did
  not raise returned, and nothing of a branch that raised: putting a failed branch anywhere
  among the outcomes changes nothing of what its siblings contribute. The number of
  entries is the sum over the branches that returned, and at the threat scenario level,
  where a branch returns one artifact, it is the number of completed branches; one level
  up it is the number of completed branches under the damage scenarios that returned.
\<close>

theorem fan_in_isolates_failures:
  "collect_extend outs [] = concat (returned outs)
   \<and> collect_assets pairs ([], []) =
       (concat (map fst (returned pairs)), concat (map snd (returned pairs)))
   \<and> length (collect_extend outs []) = sum_list (map length (returned outs))
   \<and> collect_extend (before @ [Raised e] @ after) [] = collect_extend (before @ after) []
   \<and> collect_assets (pbefore @ [Raised e] @ pafter) ([], []) =
       collect_assets (pbefore @ pafter) ([], [])
   \<and> collect_append (tbefore @ [Raised e] @ tafter) [] = collect_append (tbefore @ tafter) []
   \<and> length (collect_append touts []) = length (filter completed touts)
   \<and> length (collect_extend (map (map_outcome (\<lambda>ts. collect_append ts [])) douts) []) =
       sum_list (map (\<lambda>ts. length (filter completed ts)) (returned douts))"
proof -
  have count: "length (collect_append touts []) = length (filter completed touts)"
    by (simp add: collect_append_length)
  have rest: "collect_extend outs [] = concat (returned outs)
   \<and> collect_assets pairs ([], []) =
       (concat (map fst (returned pairs)), concat (map snd (returned pairs)))
   \<and> length (collect_extend outs []) = sum_list (map length (returned outs))
   \<and> collect_extend (before @ [Raised e] @ after) [] = collect_extend (before @ after) []
   \<and> collect_assets (pbefore @ [Raised e] @ pafter) ([], []) =
       collect_assets (pbefore @ pafter) ([], [])
   \<and> collect_append (tbefore @ [Raised e] @ tafter) [] = collect_append (tbefore @ tafter) []"
    by (simp add: collect_extend_concat collect_assets_concat collect_append_returned
        returned_append length_concat)
  from rest count nested_count [of douts] show ?thesis by blast
qed

subsection \<open>Retry around the terminal stage pair\<close>

lemma retry_schedule_values:
  "retry_schedule (Suc 0) = [StagePair (Suc 0)]"
  "retry_schedule 2 = [StagePair (Suc 0), Slept (Suc 0), StagePair 2]"
  "retry_schedule 3 = [StagePair (Suc 0), Slept (Suc 0), StagePair 2, Slept 2, StagePair 3]"
  by (simp_all add: retry_schedule_def upt_rec numeral_2_eq_2 numeral_3_eq_3)

lemma process_threat_loop_2:
  "process_threat_loop rta cso x 2 =
     (case bind_err (rta 2 x) (cso 2) of
        Inr d \<Rightarrow> (Some d, [StagePair 3])
      | Inl e \<Rightarrow> (None, [StagePair 3]))"
  by (subst process_threat_loop.simps) (simp add: max_stage_retries_def split: sum.splits)

lemma process_threat_loop_1:
  "process_threat_loop rta cso x (Suc 0) =
     (case bind_err (rta (Suc 0) x) (cso (Suc 0)) of
        Inr d \<Rightarrow> (Some d, [StagePair 2])
      | Inl e \<Rightarrow>
          (fst (process_threat_loop rta cso x 2),
           StagePair 2 # Slept 2 # snd (process_threat_loop rta cso x 2)))"
  by (subst process_threat_loop.simps)
     (simp add: max_stage_retries_def numeral_2_eq_2 split: sum.splits prod.splits)

lemma process_threat_loop_0:
  "process_threat_loop rta cso x 0 =
     (case bind_err (rta 0 x) (cso 0) of
        Inr d \<Rightarrow> (Some d, [StagePair (Suc 0)])
      | Inl e \<Rightarrow>
          (fst (process_threat_loop rta cso x (Suc 0)),
           StagePair (Suc 0) # Slept (Suc 0) # snd (process_threat_loop rta cso x (Suc 0))))"
  by (subst process_threat_loop.simps)
     (simp add: max_stage_retries_def split: sum.splits prod.splits)

lemma process_threat_cases:
  "process_threat_scenario_async rta cso x =
     (case bind_err (rta 0 x) (cso 0) of
        Inr d \<Rightarrow> (Some d, retry_schedule (Suc 0))
      | Inl e0 \<Rightarrow>
          (case bind_err (rta (Suc 0) x) (cso (Suc 0)) of
             Inr d \<Rightarrow> (Some d, retry_schedule 2)
           | Inl e1 \<Rightarrow>
               (case bind_err (rta 2 x) (cso 2) of
                  Inr d \<Rightarrow> (Some d, retry_schedule 3)
                | Inl e2 \<Rightarrow> (None, retry_schedule 3))))"
  unfolding process_threat_scenario_async_def process_threat_loop_0 process_threat_loop_1
    process_threat_loop_2 retry_schedule_values
  by (simp split: sum.splits)

lemma less_3_cases: "(\<forall>k<3. P k) \<longleftrightarrow> P 0 \<and> P (Suc 0) \<and> P (2::nat)"
proof
  assume "\<forall>k<3. P k"
  then show "P 0 \<and> P (Suc 0) \<and> P 2" by simp
next
  assume a: "P 0 \<and> P (Suc 0) \<and> P 2"
  show "\<forall>k<3. P k"
  proof (intro allI impI)
    fix k :: nat
    assume "k < 3"
    then have "k = 0 \<or> k = Suc 0 \<or> k = 2" by arith
    with a show "P k" by auto
  qed
qed

text \<open>
  C7. A threat scenario branch runs the stage pair at most three times (the first pass and
  at most two retries), sleeps \<open>2 ^ (k - 1)\<close> seconds before retry \<open>k\<close>, and returns \<open>None\<close>,
  raising nothing, exactly when all three passes failed.
\<close>

theorem threat_retry_bounded:
  "(\<exists>n. 1 \<le> n \<and> n \<le> 3 \<and> snd (process_threat_scenario_async rta cso x) = retry_schedule n)
   \<and> length (filter is_stage_pair (snd (process_threat_scenario_async rta cso x))) \<le> 3
   \<and> (fst (process_threat_scenario_async rta cso x) = None
        \<longleftrightarrow> (\<forall>k<3. stage_pair_fails rta cso x k))"
proof -
  have sched: "\<exists>n. 1 \<le> n \<and> n \<le> 3 \<and> snd (process_threat_scenario_async rta cso x) = retry_schedule n"
  proof -
    have "snd (process_threat_scenario_async rta cso x) = retry_schedule (Suc 0)
        \<or> snd (process_threat_scenario_async rta cso x) = retry_schedule 2
        \<or> snd (process_threat_scenario_async rta cso x) = retry_schedule 3"
      by (simp add: process_threat_cases split: sum.splits)
    moreover have "(1::nat) \<le> Suc 0 \<and> Suc 0 \<le> 3" and "(1::nat) \<le> 2 \<and> (2::nat) \<le> 3"
      and "(1::nat) \<le> 3 \<and> (3::nat) \<le> 3" by simp_all
    ultimately show ?thesis by blast
  qed
  have count: "length (filter is_stage_pair (snd (process_threat_scenario_async rta cso x))) \<le> 3"
    unfolding process_threat_cases retry_schedule_values
    by (simp split: sum.splits)
  have none: "fst (process_threat_scenario_async rta cso x) = None
        \<longleftrightarrow> (\<forall>k<3. stage_pair_fails rta cso x k)"
    unfolding less_3_cases process_threat_cases stage_pair_fails_def
    by (auto split: sum.splits)
  from sched count none show ?thesis by blast
qed

theorem threat_retry_bounded_witness:
  "stage_pair_fails failing_stage passing_stage 0 0
   \<and> stage_pair_fails failing_stage passing_stage 0 1
   \<and> stage_pair_fails failing_stage passing_stage 0 2
   \<and> process_threat_scenario_async failing_stage passing_stage 0
       = (None, [StagePair 1, Slept 1, StagePair 2, Slept 2, StagePair 3])"
proof -
  have f: "\<forall>k<3. stage_pair_fails failing_stage passing_stage 0 k"
    by (simp add: stage_pair_fails_def bind_err_def failing_stage_def)
  from threat_retry_bounded [of failing_stage passing_stage 0] f
  have n: "fst (process_threat_scenario_async failing_stage passing_stage 0) = None"
    by blast
  have t: "snd (process_threat_scenario_async failing_stage passing_stage 0)
      = [StagePair 1, Slept 1, StagePair 2, Slept 2, StagePair 3]"
    unfolding process_threat_cases retry_schedule_values
    by (simp add: bind_err_def failing_stage_def)
  have "stage_pair_fails failing_stage passing_stage 0 0"
    and "stage_pair_fails failing_stage passing_stage 0 1"
    and "stage_pair_fails failing_stage passing_stage 0 2"
    using f by simp_all
  with n t show ?thesis by (simp add: prod_eq_iff)
qed

subsection \<open>The conditional control and requirement stage\<close>

lemma option_name_reduce: "lower (option_name opt) = ''reduce'' \<longleftrightarrow> opt = REDUCE"
  by (cases opt) (simp_all add: lower_def lower_char_def)

text \<open>
  With a decision other than \<open>REDUCE\<close> the stage issues no request and returns the artifact
  with the empty requirement attached and nothing else changed.
\<close>

lemma cso_csr_skipped:
  assumes "risk_treatment_decision artifact = Some decision"
    and "risk_treatment decision = Some opt" and "opt \<noteq> REDUCE"
  shows "asset_cso_csr_assessment analyze csr_hash request_of artifact =
     (Inr (artifact\<lparr>cybersecurity_control_requirement := Some empty_requirement\<rparr>), [])"
  using assms by (simp add: asset_cso_csr_assessment_def option_name_reduce)

text \<open>With \<open>REDUCE\<close> it issues exactly one request.\<close>

lemma cso_csr_requested:
  assumes "risk_treatment_decision artifact = Some decision"
    and "risk_treatment decision = Some REDUCE"
  shows "snd (asset_cso_csr_assessment analyze csr_hash request_of artifact) =
     [request_of (artifact\<lparr>cybersecurity_control_requirement := Some empty_requirement\<rparr>)]"
  using assms
  by (simp add: asset_cso_csr_assessment_def lower_def lower_char_def Let_def split: sum.splits)

text \<open>
  C6. The claim holds for the decisions \<open>AVOID\<close>, \<open>SHARE\<close> and \<open>RETAIN\<close>, but an artifact
  whose decision is unset is not passed through: the stage raises \<open>AttributeError\<close> on it,
  whatever the service would answer, after issuing no request.
\<close>

theorem cso_csr_unset_decision_raises:
  "asset_cso_csr_assessment analyze csr_hash request_of undecided_artifact =
     (Inl AttributeError, [])"
  by (simp add: asset_cso_csr_assessment_def undecided_artifact_def)

subsection \<open>Growth of the per-attempt timeout\<close>

lemma send_attempts_timeouts:
  assumes "0 \<le> t" and "t \<le> 120"
  shows "sorted (post_timeouts (snd (send_attempts post mr as t)))
       \<and> (\<forall>u \<in> set (post_timeouts (snd (send_attempts post mr as t))). t \<le> u \<and> u \<le> 120)"
  using assms
proof (induction as arbitrary: t)
  case Nil
  then show ?case by simp
next
  case (Cons a as)
  let ?grown = "min (t * 1.5) 120"
  have g: "0 \<le> ?grown" "?grown \<le> 120" "t \<le> ?grown"
    using Cons.prems by simp_all
  note same = Cons.IH [OF Cons.prems]
  note grown = Cons.IH [OF g(1) g(2)]
  show ?case
  proof (cases "post a t")
    case (Responded j)
    then show ?thesis using Cons.prems by simp
  next
    case TimedOut
    obtain r later where s: "send_attempts post mr as ?grown = (r, later)"
      by (cases "send_attempts post mr as ?grown")
    with grown g(3) have "sorted (post_timeouts later)"
      and "\<forall>u \<in> set (post_timeouts later). t \<le> u \<and> u \<le> 120"
      by auto
    with TimedOut s Cons.prems show ?thesis by auto
  next
    case (BadStatus st)
    obtain r later where s: "send_attempts post mr as t = (r, later)"
      by (cases "send_attempts post mr as t")
    with same have "sorted (post_timeouts later)"
      and "\<forall>u \<in> set (post_timeouts later). t \<le> u \<and> u \<le> 120"
      by auto
    with BadStatus s Cons.prems show ?thesis by auto
  next
    case TransportFailed
    obtain r later where s: "send_attempts post mr as t = (r, later)"
      by (cases "send_attempts post mr as t")
    with same have "sorted (post_timeouts later)"
      and "\<forall>u \<in> set (post_timeouts later). t \<le> u \<and> u \<le> 120"
      by auto
    with TransportFailed s Cons.prems show ?thesis by auto
  next
    case (Crashed e)
    then show ?thesis using Cons.prems by simp
  qed
qed

lemma never_in_time_trace:
  "snd (send_request never_in_time 3 200) =
     [Post 0 200, Wait 1, Post 1 120, Wait 2, Post 2 120, Wait 4, Post 3 120]"
  by (simp add: send_request_def never_in_time_def upt_rec numeral_2_eq_2 numeral_3_eq_3)

text \<open>
  C5, as amended. When the configured timeout lies between 0 and the ceiling of 120
  seconds, the timeouts of the transmissions of one \<open>_send_request\<close> call, whatever the
  failures between them, never decrease and never exceed 120.
\<close>

theorem timeout_growth_bounded:
  "0 \<le> timeout \<and> timeout \<le> 120
     \<longrightarrow> sorted (post_timeouts (snd (send_request post max_retries timeout)))
       \<and> (\<forall>u \<in> set (post_timeouts (snd (send_request post max_retries timeout))). u \<le> 120)"
  using send_attempts_timeouts [of timeout post max_retries "[0..<nat (max_retries + 1)]"]
  by (simp add: send_request_def)

theorem timeout_growth_bounded_witness:
  "(0::real) \<le> 60 \<and> (60::real) \<le> 120
   \<and> post_timeouts (snd (send_request never_in_time 3 60)) = [60, 90, 120, 120]
   \<and> sorted (post_timeouts (snd (send_request never_in_time 3 60)))
   \<and> list_all (\<lambda>u. u \<le> 120) (post_timeouts (snd (send_request never_in_time 3 60)))"
proof -
  have v: "post_timeouts (snd (send_request never_in_time 3 60)) = [60, 90, 120, 120]"
    by (simp add: send_request_def never_in_time_def upt_rec numeral_2_eq_2 numeral_3_eq_3)
  from timeout_growth_bounded [of 60 never_in_time 3]
  have "sorted (post_timeouts (snd (send_request never_in_time 3 60)))"
    and "list_all (\<lambda>u. u \<le> 120) (post_timeouts (snd (send_request never_in_time 3 60)))"
    by (simp_all add: list_all_iff)
  with v show ?thesis by simp
qed

text \<open>
  The claim as written, for every configured timeout, fails: with 200 seconds configured
  and a service that never answers in time, the first transmission runs with 200 seconds,
  above the ceiling, and the next ones with 120, below the first.
\<close>

theorem timeout_growth_counterexample:
  "post_timeouts (snd (send_request never_in_time 3 200)) = [200, 120, 120, 120]
   \<and> \<not> sorted (post_timeouts (snd (send_request never_in_time 3 200)))
   \<and> \<not> (\<forall>u \<in> set (post_timeouts (snd (send_request never_in_time 3 200))). u \<le> 120)"
  by (simp add: never_in_time_trace)

subsection \<open>Attempts and backoff of one logical request\<close>






















lemma total_sleep_append: "total_sleep (xs @ ys) = total_sleep xs + total_sleep ys"
  by (simp add: total_sleep_def)









end
